theory Spec2Isabelle
  imports Main
begin

section \<open>The answering-machine webhook (src/ab/ai-flow-webhook.py)\<close>

text \<open>
  A shallow embedding of the module's two handler methods, \<open>FlowHandler.do_POST\<close> and
  \<open>FlowHandler.handle_event\<close>, and of \<open>notify_clawdbot\<close>.

  \<^item> The module-level dict \<open>sessions\<close> and the notifications handed to
    \<open>notify_clawdbot\<close> form the state, passed explicitly.
  \<^item> A Python exception that leaves a handler is the \<open>Inl\<close> branch of the result.
    Every raise of \<open>handle_event\<close> happens before its first write to \<open>sessions\<close>,
    so a raised error leaves the state as it was.
  \<^item> The server is a plain \<open>HTTPServer\<close>: requests are handled one after another, so
    a sequence of requests is a fold over the handler.
  \<^item> \<open>print\<close> writes to a UTF-8 text stream (the default of Python 3): the call
    raises UnicodeEncodeError when a string it formats holds a surrogate code point,
    which \<open>json.loads\<close> produces from the escape of a lone surrogate. What is printed
    is not kept.
  \<^item> The wall-clock time stamp, the socket and the HTTP delivery of a notification are
    outside the model; what is kept of a notification is the pair of arguments and the
    message part of the text built from them.
\<close>

subsection \<open>Python values\<close>

text \<open>A Python \<open>str\<close> is a sequence of code points.\<close>

type_synonym pystr = "nat list"

definition u :: "string \<Rightarrow> pystr" where
  "u s = map of_char s"

text \<open>
  What \<open>json.loads\<close> returns. An object is the item list of the resulting dict (keys
  looked up with \<open>map_of\<close>). Numbers are the integers; no claim depends on a float.
\<close>

datatype json =
    JNull
  | JBool bool
  | JNum int
  | JStr pystr
  | JArr "json list"
  | JObj "(pystr \<times> json) list"

datatype py_error =
    AttributeError
  | TypeError
  | KeyError
  | ValueError
  | JSONDecodeError
  | UnicodeDecodeError
  | UnicodeEncodeError
  | RecursionError

definition bnd :: "'e + 'a \<Rightarrow> ('a \<Rightarrow> 'e + 'b) \<Rightarrow> 'e + 'b" where
  "bnd m f = (case m of Inl e \<Rightarrow> Inl e | Inr x \<Rightarrow> f x)"

text \<open>\<open>obj.get(k, d)\<close>: only a dict has the method.\<close>

fun dict_get :: "json \<Rightarrow> pystr \<Rightarrow> json \<Rightarrow> py_error + json" where
  "dict_get (JObj fs) k d = Inr (case map_of fs k of None \<Rightarrow> d | Some v \<Rightarrow> v)"
| "dict_get _ k d = Inl AttributeError"

text \<open>
  Keys of the dict \<open>sessions\<close>: lists and dicts are unhashable (TypeError), and
  \<open>True\<close>/\<open>False\<close> are the same keys as \<open>1\<close>/\<open>0\<close>.
\<close>

datatype key = KNone | KNum int | KStr pystr

fun dict_key :: "json \<Rightarrow> py_error + key" where
  "dict_key JNull = Inr KNone"
| "dict_key (JBool b) = Inr (KNum (if b then 1 else 0))"
| "dict_key (JNum n) = Inr (KNum n)"
| "dict_key (JStr s) = Inr (KStr s)"
| "dict_key (JArr xs) = Inl TypeError"
| "dict_key (JObj fs) = Inl TypeError"

text \<open>
  \<open>str.strip()\<close> removes the code points for which \<open>str.isspace\<close> holds from both
  ends; only a \<open>str\<close> has the method.
\<close>

definition py_isspace :: "nat \<Rightarrow> bool" where
  "py_isspace c \<longleftrightarrow>
     (9 \<le> c \<and> c \<le> 13) \<or> (28 \<le> c \<and> c \<le> 32) \<or> c = 133 \<or> c = 160 \<or> c = 5760 \<or>
     (8192 \<le> c \<and> c \<le> 8202) \<or> c = 8232 \<or> c = 8233 \<or> c = 8239 \<or> c = 8287 \<or> c = 12288"

definition strip :: "pystr \<Rightarrow> pystr" where
  "strip s = rev (dropWhile py_isspace (rev (dropWhile py_isspace s)))"

fun py_strip :: "json \<Rightarrow> py_error + pystr" where
  "py_strip (JStr s) = Inr (strip s)"
| "py_strip _ = Inl AttributeError"

text \<open>
  \<open>print(f"... {v} ...")\<close> formats each value with \<open>str\<close> and encodes the line as
  UTF-8. A \<open>str\<close> is written as it is, and a surrogate in it cannot be encoded; every
  other value is written through \<open>repr\<close>, which escapes the surrogates of the strings
  inside it. The constant parts of the lines of this module hold no surrogate.
\<close>

definition utf8_encodable :: "pystr \<Rightarrow> bool" where
  "utf8_encodable t = list_all (\<lambda>c. \<not> (55296 \<le> c \<and> c \<le> 57343)) t"

fun str_encodable :: "json \<Rightarrow> bool" where
  "str_encodable (JStr t) = utf8_encodable t"
| "str_encodable _ = True"

definition py_print :: "json list \<Rightarrow> py_error + unit" where
  "py_print vs = (if list_all str_encodable vs then Inr () else Inl UnicodeEncodeError)"


text \<open>\<open>sep.join(parts)\<close>\<close>

fun join :: "pystr \<Rightarrow> pystr list \<Rightarrow> pystr" where
  "join sep [] = []"
| "join sep [x] = x"
| "join sep (x # y # ys) = x @ sep @ join sep (y # ys)"

subsection \<open>Module state and configuration\<close>

text \<open>
  A value of the dict \<open>sessions\<close>. The keys \<open>caller\<close> and \<open>messages\<close> are set by each of
  the three places that create one; \<open>beeped\<close> and \<open>thanked\<close> may be absent (\<open>None\<close>).
\<close>

record session =
  caller :: json
  messages :: "pystr list"
  beeped :: "bool option"
  thanked :: "bool option"

text \<open>One call of \<open>notify_clawdbot(caller, messages)\<close>, with its \<open>msg_text\<close>.\<close>

record notification =
  n_caller :: json
  n_messages :: "pystr list"
  n_msg_text :: pystr

record state =
  sessions :: "key \<rightharpoonup> session"
  sent :: "notification list"

text \<open>
  What the module reads from outside: the two environment settings, the content of
  \<open>beep.b64\<close> (\<open>None\<close> when the file is missing), and the two library functions that
  \<open>do_POST\<close> applies to the request, \<open>int\<close> and \<open>json.loads\<close>, with the exceptions they
  raise.
\<close>

record env =
  SECRET :: pystr
  BEEP_AUDIO :: "pystr option"
  py_int :: "pystr \<Rightarrow> py_error + int"
  json_loads :: "nat list \<Rightarrow> py_error + json"

definition GREETING :: pystr where
  "GREETING = u (''Hallo, hier ist der Anrufbeantworter von YuzuHub. '' @
     ''Wir sind gerade nicht erreichbar. '' @
     ''Bitte hinterlasse eine Nachricht nach dem Signalton, und wir melden uns bei dir.'')"

definition THANKS :: pystr where
  "THANKS = u ''Danke f'' @ [252] @ u ''r deine Nachricht. Wir melden uns so bald wie m'' @
     [246] @ u ''glich. Tsch'' @ [252] @ u ''ss!''"

definition REPROMPT :: pystr where
  "REPROMPT = u ''Hallo? Wenn du eine Nachricht hinterlassen m'' @ [246] @
     u ''chtest, sprich einfach los.''"

definition unbekannt :: json where
  "unbekannt = JStr (u ''unbekannt'')"

subsection \<open>notify_clawdbot\<close>

definition msg_text :: "pystr list \<Rightarrow> pystr" where
  "msg_text msgs =
     (if msgs \<noteq> [] then join [10] (map (\<lambda>m. u ''  > '' @ m) msgs)
      else u ''  (keine Nachricht hinterlassen)'')"

definition notify_clawdbot :: "json \<Rightarrow> pystr list \<Rightarrow> state \<Rightarrow> state" where
  "notify_clawdbot c msgs s =
     s\<lparr>sent := sent s @ [\<lparr>n_caller = c, n_messages = msgs, n_msg_text = msg_text msgs\<rparr>]\<rparr>"

subsection \<open>handle_event\<close>

text \<open>\<open>d.get(flag)\<close> and \<open>d.get(flag, False)\<close> read as a condition.\<close>

definition flag :: "bool option \<Rightarrow> bool" where
  "flag b = (case b of None \<Rightarrow> False | Some v \<Rightarrow> v)"

text \<open>\<open>sessions[k]\<close>\<close>

definition store_get :: "state \<Rightarrow> key \<Rightarrow> py_error + session" where
  "store_get s k = (case sessions s k of None \<Rightarrow> Inl KeyError | Some d \<Rightarrow> Inr d)"

text \<open>
  \<open>if session_id not in sessions: sessions[session_id] = {"caller": "unbekannt", "messages": []}\<close>
\<close>

definition new_session :: session where
  "new_session = \<lparr>caller = unbekannt, messages = [], beeped = None, thanked = None\<rparr>"

definition ensure_session :: "key \<Rightarrow> state \<Rightarrow> state" where
  "ensure_session k s =
     (if sessions s k = None then s\<lparr>sessions := (sessions s)(k \<mapsto> new_session)\<rparr> else s)"

definition put_session :: "key \<Rightarrow> session \<Rightarrow> state \<Rightarrow> state" where
  "put_session k d s = s\<lparr>sessions := (sessions s)(k \<mapsto> d)\<rparr>"

definition greeting_action :: "json \<Rightarrow> json" where
  "greeting_action session_id = JObj
     [(u ''type'', JStr (u ''speak'')),
      (u ''session_id'', session_id),
      (u ''text'', JStr GREETING),
      (u ''user_input_timeout_seconds'', JNum 30)]"

definition thanks_action :: "json \<Rightarrow> json" where
  "thanks_action session_id = JObj
     [(u ''type'', JStr (u ''speak'')),
      (u ''session_id'', session_id),
      (u ''text'', JStr THANKS)]"

definition reprompt_action :: "json \<Rightarrow> json" where
  "reprompt_action session_id = JObj
     [(u ''type'', JStr (u ''speak'')),
      (u ''session_id'', session_id),
      (u ''text'', JStr REPROMPT),
      (u ''user_input_timeout_seconds'', JNum 15)]"

definition audio_action :: "json \<Rightarrow> pystr \<Rightarrow> json" where
  "audio_action session_id audio = JObj
     [(u ''type'', JStr (u ''audio'')),
      (u ''session_id'', session_id),
      (u ''audio'', JStr audio)]"

definition on_session_start :: "state \<Rightarrow> json \<Rightarrow> json \<Rightarrow> py_error + (json option \<times> state)" where
  "on_session_start s session session_id =
     bnd (dict_get session (u ''from_phone_number'') unbekannt) (\<lambda>c.
     bnd (dict_get session (u ''direction'') (JStr (u ''inbound''))) (\<lambda>direction.
     bnd (py_print [c, direction]) (\<lambda>printed.
     bnd (dict_key session_id) (\<lambda>k.
       Inr (Some (greeting_action session_id),
            put_session k \<lparr>caller = c, messages = [], beeped = Some False, thanked = None\<rparr> s)))))"

definition on_user_speak :: "state \<Rightarrow> json \<Rightarrow> json \<Rightarrow> py_error + (json option \<times> state)" where
  "on_user_speak s event session_id =
     bnd (dict_get event (u ''text'') (JStr [])) (\<lambda>t.
     bnd (py_strip t) (\<lambda>txt.
     bnd (py_print [JStr txt]) (\<lambda>printed.
     bnd (dict_key session_id) (\<lambda>k.
       let s1 = ensure_session k s in
       if txt \<noteq> [] then
         bnd (store_get s1 k) (\<lambda>d.
           Inr (None, put_session k (d\<lparr>messages := messages d @ [txt]\<rparr>) s1))
       else Inr (None, s1)))))"

definition on_user_input_timeout :: "state \<Rightarrow> json \<Rightarrow> py_error + (json option \<times> state)" where
  "on_user_input_timeout s session_id =
     bnd (dict_key session_id) (\<lambda>k.
       let s1 = ensure_session k s in
       bnd (store_get s1 k) (\<lambda>d.
         let msgs = messages d; already_thanked = flag (thanked d) in
         if msgs \<noteq> [] \<and> \<not> already_thanked then
           bnd (store_get s1 k) (\<lambda>d'.
             Inr (Some (thanks_action session_id),
                  notify_clawdbot (caller d) msgs (put_session k (d'\<lparr>thanked := Some True\<rparr>) s1)))
         else if msgs = [] then Inr (Some (reprompt_action session_id), s1)
         else Inr (None, s1)))"

text \<open>
  \<open>data = sessions.pop(session_id, {})\<close>: on an empty dict \<open>pop\<close> returns the default
  without hashing the key, so an unhashable id raises only when the store holds a
  record. The line printed before it is a constant.
\<close>

definition on_session_end :: "state \<Rightarrow> json \<Rightarrow> py_error + (json option \<times> state)" where
  "on_session_end s session_id =
     (if sessions s = Map.empty then Inr (None, notify_clawdbot unbekannt [] s)
      else
        bnd (dict_key session_id) (\<lambda>k.
          let d = sessions s k;
              s1 = s\<lparr>sessions := (sessions s)(k := None)\<rparr>;
              msgs = (case d of None \<Rightarrow> [] | Some r \<Rightarrow> messages r);
              c = (case d of None \<Rightarrow> unbekannt | Some r \<Rightarrow> caller r);
              already_thanked = (case d of None \<Rightarrow> False | Some r \<Rightarrow> flag (thanked r))
          in Inr (None, if \<not> already_thanked then notify_clawdbot c msgs s1 else s1)))"

text \<open>
  \<open>data = sessions.get(session_id, {})\<close>: with a record in the store \<open>data\<close> is that
  record, and \<open>data["beeped"] = True\<close> writes to the store; without one \<open>data\<close> is a
  fresh dict, and the write is lost.
\<close>

definition on_assistant_speech_ended :: "env \<Rightarrow> state \<Rightarrow> json \<Rightarrow> py_error + (json option \<times> state)" where
  "on_assistant_speech_ended e s session_id =
     bnd (dict_key session_id) (\<lambda>k.
       let d = sessions s k;
           was_beeped = (case d of None \<Rightarrow> False | Some r \<Rightarrow> flag (beeped r))
       in case BEEP_AUDIO e of
            None \<Rightarrow> Inr (None, s)
          | Some audio \<Rightarrow>
              if \<not> was_beeped \<and> audio \<noteq> [] then
                Inr (Some (audio_action session_id audio),
                     case d of None \<Rightarrow> s | Some r \<Rightarrow> put_session k (r\<lparr>beeped := Some True\<rparr>) s)
              else Inr (None, s))"

definition handle_event :: "env \<Rightarrow> state \<Rightarrow> json \<Rightarrow> py_error + (json option \<times> state)" where
  "handle_event e s event =
     bnd (dict_get event (u ''type'') (JStr [])) (\<lambda>event_type.
     bnd (dict_get event (u ''session'') (JObj [])) (\<lambda>session.
     bnd (dict_get session (u ''id'') (JStr [])) (\<lambda>session_id.
       if event_type = JStr (u ''session_start'') then on_session_start s session session_id
       else if event_type = JStr (u ''user_speak'') then on_user_speak s event session_id
       else if event_type = JStr (u ''user_input_timeout'') then on_user_input_timeout s session_id
       else if event_type = JStr (u ''session_end'') then on_session_end s session_id
       else if event_type = JStr (u ''assistant_speak'') then Inr (None, s)
       else if event_type = JStr (u ''assistant_speech_ended'') then
         on_assistant_speech_ended e s session_id
       else Inr (None, s))))"

text \<open>Events handled one after another, as the server does; the actions are collected.\<close>

fun run :: "env \<Rightarrow> state \<Rightarrow> json list \<Rightarrow> py_error + (json option list \<times> state)" where
  "run e s [] = Inr ([], s)"
| "run e s (ev # evs) =
     bnd (handle_event e s ev) (\<lambda>(a, s1).
     bnd (run e s1 evs) (\<lambda>(acts, s2). Inr (a # acts, s2)))"

subsection \<open>do_POST\<close>














subsection \<open>Reading an event, and the session store\<close>

definition event_type :: "json \<Rightarrow> py_error + json" where
  "event_type ev = dict_get ev (u ''type'') (JStr [])"

definition event_session_id :: "json \<Rightarrow> py_error + json" where
  "event_session_id ev =
     bnd (dict_get ev (u ''session'') (JObj [])) (\<lambda>session. dict_get session (u ''id'') (JStr []))"

definition event_from :: "json \<Rightarrow> py_error + json" where
  "event_from ev =
     bnd (dict_get ev (u ''session'') (JObj [])) (\<lambda>session.
       dict_get session (u ''from_phone_number'') unbekannt)"

definition event_direction :: "json \<Rightarrow> py_error + json" where
  "event_direction ev =
     bnd (dict_get ev (u ''session'') (JObj [])) (\<lambda>session.
       dict_get session (u ''direction'') (JStr (u ''inbound'')))"

definition event_key :: "json \<Rightarrow> py_error + key" where
  "event_key ev = bnd (event_session_id ev) dict_key"

text \<open>An event of type \<open>t\<close> whose session id is the store key \<open>k\<close>.\<close>

definition is_event :: "string \<Rightarrow> key \<Rightarrow> json \<Rightarrow> bool" where
  "is_event t k ev \<longleftrightarrow> event_type ev = Inr (JStr (u t)) \<and> event_key ev = Inr k"

text \<open>The \<open>text\<close> field of an event when it is a \<open>str\<close> (or absent: the default is \<open>""\<close>).\<close>

definition event_text :: "json \<Rightarrow> pystr option" where
  "event_text ev =
     (case dict_get ev (u ''text'') (JStr []) of Inr (JStr t) \<Rightarrow> Some t | _ \<Rightarrow> None)"

definition messages_of :: "state \<Rightarrow> key \<Rightarrow> pystr list" where
  "messages_of s k = (case sessions s k of None \<Rightarrow> [] | Some d \<Rightarrow> messages d)"

definition caller_of :: "state \<Rightarrow> key \<Rightarrow> json" where
  "caller_of s k = (case sessions s k of None \<Rightarrow> unbekannt | Some d \<Rightarrow> caller d)"

definition thanked_in :: "state \<Rightarrow> key \<Rightarrow> bool" where
  "thanked_in s k = (case sessions s k of None \<Rightarrow> False | Some d \<Rightarrow> flag (thanked d))"

definition beeped_in :: "state \<Rightarrow> key \<Rightarrow> bool" where
  "beeped_in s k = (case sessions s k of None \<Rightarrow> False | Some d \<Rightarrow> flag (beeped d))"

subsection \<open>Concrete events and a concrete environment\<close>

definition mk_event :: "string \<Rightarrow> string \<Rightarrow> json" where
  "mk_event t sid = JObj [(u ''type'', JStr (u t)), (u ''session'', JObj [(u ''id'', JStr (u sid))])]"

definition mk_start :: "string \<Rightarrow> string \<Rightarrow> json" where
  "mk_start sid from = JObj
     [(u ''type'', JStr (u ''session_start'')),
      (u ''session'', JObj [(u ''id'', JStr (u sid)), (u ''from_phone_number'', JStr (u from))])]"

definition mk_speak :: "string \<Rightarrow> string \<Rightarrow> json" where
  "mk_speak sid txt = JObj
     [(u ''type'', JStr (u ''user_speak'')),
      (u ''session'', JObj [(u ''id'', JStr (u sid))]),
      (u ''text'', JStr (u txt))]"

text \<open>
  \<open>dec_int\<close> agrees with \<open>int\<close> on the header values used below: a plain run of decimal
  digits, and a word of letters. \<open>loads0\<close> agrees with \<open>json.loads\<close> on the three
  bodies used below: \<open>{}\<close>, \<open>{"type":"session_start"}\<close> and the empty body.
\<close>

definition dec_int :: "pystr \<Rightarrow> py_error + int" where
  "dec_int v =
     (if v \<noteq> [] \<and> list_all (\<lambda>c. 48 \<le> c \<and> c \<le> 57) v
      then Inr (foldl (\<lambda>a c. 10 * a + int (c - 48)) 0 v) else Inl ValueError)"

definition loads0 :: "nat list \<Rightarrow> py_error + json" where
  "loads0 bs =
     (if bs = u ''{}'' then Inr (JObj [])
      else if bs = u ''{\"type\":\"session_start\"}'' then Inr (JObj [(u ''type'', JStr (u ''session_start''))])
      else Inl JSONDecodeError)"

definition env0 :: env where
  "env0 = \<lparr>SECRET = u ''s3cret'', BEEP_AUDIO = Some (u ''UklGRg==''), py_int = dec_int,
            json_loads = loads0\<rparr>"

definition s0 :: state where
  "s0 = \<lparr>sessions = Map.empty, sent = []\<rparr>"

text \<open>The record that a handler works on after \<open>ensure_session\<close>.\<close>

definition stored :: "state \<Rightarrow> key \<Rightarrow> session" where
  "stored s k = (case sessions s k of None \<Rightarrow> new_session | Some d \<Rightarrow> d)"

text \<open>The event types with a branch of their own that touches the store.\<close>

definition known_types :: "json set" where
  "known_types = {JStr (u ''session_start''), JStr (u ''user_speak''), JStr (u ''user_input_timeout''),
     JStr (u ''session_end''), JStr (u ''assistant_speech_ended'')}"

subsection \<open>Sequences of events\<close>

text \<open>
  A request whose handler raises is dropped by the server, which goes on with the next
  one; the state is as it was. \<open>states\<close> lists the state after each event.
\<close>

definition step :: "env \<Rightarrow> state \<Rightarrow> json \<Rightarrow> state" where
  "step e s ev = (case handle_event e s ev of Inl err \<Rightarrow> s | Inr (a, s1) \<Rightarrow> s1)"

fun states :: "env \<Rightarrow> state \<Rightarrow> json list \<Rightarrow> state list" where
  "states e s [] = []"
| "states e s (ev # evs) = step e s ev # states e (step e s ev) evs"

fun final :: "env \<Rightarrow> state \<Rightarrow> json list \<Rightarrow> state" where
  "final e s [] = s"
| "final e s (ev # evs) = final e (step e s ev) evs"

definition thanked_trace :: "env \<Rightarrow> state \<Rightarrow> json list \<Rightarrow> key \<Rightarrow> bool list" where
  "thanked_trace e s evs k = map (\<lambda>s1. thanked_in s1 k) (s # states e s evs)"

definition beeped_trace :: "env \<Rightarrow> state \<Rightarrow> json list \<Rightarrow> key \<Rightarrow> bool list" where
  "beeped_trace e s evs k = map (\<lambda>s1. beeped_in s1 k) (s # states e s evs)"

text \<open>No \<open>session_start\<close> and no \<open>session_end\<close> for \<open>k\<close> among the events.\<close>

definition same_record :: "key \<Rightarrow> json list \<Rightarrow> bool" where
  "same_record k evs \<longleftrightarrow>
     list_all (\<lambda>ev. \<not> is_event ''session_start'' k ev \<and> \<not> is_event ''session_end'' k ev) evs"

text \<open>What a run leaves for the session \<open>k\<close>: the actions, and the notifications sent.\<close>

definition run_actions :: "env \<Rightarrow> state \<Rightarrow> json list \<Rightarrow> py_error + json option list" where
  "run_actions e s evs = bnd (run e s evs) (\<lambda>(acts, s1). Inr acts)"

definition run_sent :: "env \<Rightarrow> state \<Rightarrow> json list \<Rightarrow> py_error + notification list" where
  "run_sent e s evs = bnd (run e s evs) (\<lambda>(acts, s1). Inr (sent s1))"

definition run_messages :: "env \<Rightarrow> state \<Rightarrow> json list \<Rightarrow> key \<Rightarrow> py_error + pystr list" where
  "run_messages e s evs k = bnd (run e s evs) (\<lambda>(acts, s1). Inr (messages_of s1 k))"

definition run_callers :: "env \<Rightarrow> state \<Rightarrow> json list \<Rightarrow> key \<Rightarrow> py_error + json option" where
  "run_callers e s evs k = bnd (run e s evs) (\<lambda>(acts, s1). Inr (map_option caller (sessions s1 k)))"

subsection \<open>Kinds of events\<close>

text \<open>
  A \<open>user_speak\<close> event for \<open>k\<close> whose text is a \<open>str\<close> that its log line can print.
\<close>

definition speak_event :: "key \<Rightarrow> json \<Rightarrow> bool" where
  "speak_event k ev \<longleftrightarrow>
     is_event ''user_speak'' k ev \<and>
     (case event_text ev of None \<Rightarrow> False | Some t \<Rightarrow> utf8_encodable (strip t))"

text \<open>
  A \<open>session_start\<close> event whose log line can be printed: neither the caller nor the
  direction is a string with a surrogate.
\<close>

definition start_logged :: "json \<Rightarrow> bool" where
  "start_logged ev \<longleftrightarrow>
     (case event_from ev of
        Inl err \<Rightarrow> False
      | Inr c \<Rightarrow> (case event_direction ev of
                   Inl err \<Rightarrow> False
                 | Inr d \<Rightarrow> str_encodable c \<and> str_encodable d))"

text \<open>One whose text is blank: empty, or white space only.\<close>

definition blank_speak :: "key \<Rightarrow> json \<Rightarrow> bool" where
  "blank_speak k ev \<longleftrightarrow>
     is_event ''user_speak'' k ev \<and>
     (case event_text ev of None \<Rightarrow> False | Some t \<Rightarrow> list_all py_isspace t)"

text \<open>The texts that a list of such events appends to \<open>messages\<close>.\<close>

definition said :: "json list \<Rightarrow> pystr list" where
  "said evs =
     filter (\<lambda>t. t \<noteq> [])
       (map (\<lambda>ev. case event_text ev of None \<Rightarrow> [] | Some t \<Rightarrow> strip t) evs)"

text \<open>
  An event for \<open>k\<close> between the start and the end of a call: of any type but
  \<open>session_start\<close> and \<open>session_end\<close>.
\<close>

definition listening_event :: "key \<Rightarrow> json \<Rightarrow> bool" where
  "listening_event k ev \<longleftrightarrow>
     event_key ev = Inr k \<and>
     event_type ev \<noteq> Inr (JStr (u ''session_start'')) \<and>
     event_type ev \<noteq> Inr (JStr (u ''session_end''))"






text \<open>
  The invariant of a call in progress, relative to the notifications \<open>base\<close> sent before
  it: nothing more has been sent while \<open>thanked\<close> is unset, exactly one more once it is
  set.
\<close>

definition notified_once :: "notification list \<Rightarrow> state \<Rightarrow> key \<Rightarrow> bool" where
  "notified_once base s k \<longleftrightarrow>
     (if thanked_in s k then sent s \<noteq> [] \<and> butlast (sent s) = base else sent s = base)"

section \<open>Properties\<close>

subsection \<open>The branches of handle_event\<close>

lemma bnd_Inr [simp]: "bnd (Inr x) f = f x" by (simp add: bnd_def)
lemma bnd_Inl [simp]: "bnd (Inl x) f = Inl x" by (simp add: bnd_def)

lemma bnd_eq_Inr: "bnd m f = Inr y \<longleftrightarrow> (\<exists>x. m = Inr x \<and> f x = Inr y)"
  by (cases m) simp_all

lemma u_inject [simp]: "u a = u b \<longleftrightarrow> a = b"
  by (simp add: u_def inj_map_eq_map inj_on_def)

lemma u_eq_Nil [simp]: "u a = [] \<longleftrightarrow> a = []" "[] = u a \<longleftrightarrow> a = []"
  by (auto simp: u_def)

lemma dict_get_Inr_obj: "dict_get x k d = Inr v \<Longrightarrow> \<exists>fs. x = JObj fs"
  by (cases x) simp_all

lemma dict_get_obj_total: "\<exists>v. dict_get (JObj fs) k d = Inr v"
  by simp

lemma py_print_Inr: "py_print vs = Inr x \<longleftrightarrow> list_all str_encodable vs"
  by (simp add: py_print_def)

lemma py_print_cases: "py_print vs = Inr () \<or> py_print vs = Inl UnicodeEncodeError"
  by (simp add: py_print_def)

lemma handle_event_branch:
  assumes "event_type ev = Inr t" and "event_session_id ev = Inr sid"
  shows "\<exists>c d. event_from ev = Inr c \<and> event_direction ev = Inr d \<and> handle_event e s ev =
      (if t = JStr (u ''session_start'') then
         bnd (py_print [c, d]) (\<lambda>printed.
         bnd (dict_key sid) (\<lambda>k. Inr (Some (greeting_action sid),
            put_session k \<lparr>caller = c, messages = [], beeped = Some False, thanked = None\<rparr> s)))
       else if t = JStr (u ''user_speak'') then on_user_speak s ev sid
       else if t = JStr (u ''user_input_timeout'') then on_user_input_timeout s sid
       else if t = JStr (u ''session_end'') then on_session_end s sid
       else if t = JStr (u ''assistant_speak'') then Inr (None, s)
       else if t = JStr (u ''assistant_speech_ended'') then on_assistant_speech_ended e s sid
       else Inr (None, s))"
proof -
  have ty: "dict_get ev (u ''type'') (JStr []) = Inr t"
    using assms(1) by (simp add: event_type_def)
  from assms(2) obtain session where
    sess: "dict_get ev (u ''session'') (JObj []) = Inr session"
    and sid: "dict_get session (u ''id'') (JStr []) = Inr sid"
    by (auto simp: event_session_id_def bnd_eq_Inr)
  from dict_get_Inr_obj [OF sid] obtain gs where gs: "session = JObj gs" ..
  obtain c where c: "dict_get session (u ''from_phone_number'') unbekannt = Inr c"
    using dict_get_obj_total gs by blast
  obtain dir where dir: "dict_get session (u ''direction'') (JStr (u ''inbound'')) = Inr dir"
    using dict_get_obj_total gs by blast
  show ?thesis
    unfolding handle_event_def event_from_def event_direction_def ty sess sid
      on_session_start_def bnd_Inr c dir
    by blast
qed

lemma is_eventD:
  assumes "is_event t k ev"
  obtains sid where "event_type ev = Inr (JStr (u t))" and "event_session_id ev = Inr sid"
    and "dict_key sid = Inr k"
  using assms by (auto simp: is_event_def event_key_def bnd_eq_Inr)

text \<open>A \<open>session_start\<close> either fails at its log line or stores a fresh record.\<close>

lemma he_start_cases:
  assumes "is_event ''session_start'' k ev"
  shows "(\<not> start_logged ev \<and> handle_event e s ev = Inl UnicodeEncodeError) \<or>
     (start_logged ev \<and>
      (\<exists>sid c. event_session_id ev = Inr sid \<and> dict_key sid = Inr k \<and> event_from ev = Inr c \<and>
        handle_event e s ev = Inr (Some (greeting_action sid),
          put_session k \<lparr>caller = c, messages = [], beeped = Some False, thanked = None\<rparr> s)))"
proof -
  from assms obtain sid where a: "event_type ev = Inr (JStr (u ''session_start''))"
    "event_session_id ev = Inr sid" "dict_key sid = Inr k"
    by (rule is_eventD)
  from handle_event_branch [OF a(1,2), of e s] obtain c d where
    c: "event_from ev = Inr c" and d: "event_direction ev = Inr d"
    and h: "handle_event e s ev = bnd (py_print [c, d]) (\<lambda>printed.
         bnd (dict_key sid) (\<lambda>k. Inr (Some (greeting_action sid),
            put_session k \<lparr>caller = c, messages = [], beeped = Some False, thanked = None\<rparr> s)))"
    by auto
  have l: "start_logged ev \<longleftrightarrow> str_encodable c \<and> str_encodable d"
    by (simp add: start_logged_def c d)
  show ?thesis
  proof (cases "start_logged ev")
    case True
    with l have "py_print [c, d] = Inr ()" by (simp add: py_print_def)
    with h a c True show ?thesis by simp
  next
    case False
    with l have "py_print [c, d] = Inl UnicodeEncodeError" by (auto simp: py_print_def)
    with h False show ?thesis by simp
  qed
qed

lemma he_start:
  assumes "is_event ''session_start'' k ev" and "start_logged ev"
  shows "\<exists>sid c. event_session_id ev = Inr sid \<and> dict_key sid = Inr k \<and> event_from ev = Inr c \<and>
     handle_event e s ev = Inr (Some (greeting_action sid),
       put_session k \<lparr>caller = c, messages = [], beeped = Some False, thanked = None\<rparr> s)"
  using he_start_cases [OF assms(1), of e s] assms(2) by blast

text \<open>A \<open>user_speak\<close> fails on a text that is no \<open>str\<close> or cannot be printed.\<close>

lemma speak_has_text:
  assumes "on_user_speak s ev sid = Inr r"
  shows "\<exists>t. event_text ev = Some t \<and> utf8_encodable (strip t)"
proof -
  from assms obtain v where v: "dict_get ev (u ''text'') (JStr []) = Inr v"
    unfolding on_user_speak_def by (cases "dict_get ev (u ''text'') (JStr [])") simp_all
  from assms v obtain stripped where st: "py_strip v = Inr stripped"
    unfolding on_user_speak_def by (cases "py_strip v") simp_all
  then obtain t where t: "v = JStr t" and s: "stripped = strip t"
    by (cases v) auto
  from assms v st have "py_print [JStr stripped] = Inr ()"
    unfolding on_user_speak_def by (cases "py_print [JStr stripped]") simp_all
  then have "utf8_encodable stripped"
    by (simp add: py_print_Inr)
  with v t s show ?thesis
    by (simp add: event_text_def)
qed

lemma he_speak:
  assumes "is_event ''user_speak'' k ev" and "event_text ev = Some t"
    and "utf8_encodable (strip t)"
  shows "handle_event e s ev = Inr (None,
      if strip t \<noteq> [] then put_session k ((stored s k)\<lparr>messages := messages (stored s k) @ [strip t]\<rparr>) s
      else ensure_session k s)"
proof -
  from assms(1) obtain sid where a: "event_type ev = Inr (JStr (u ''user_speak''))"
    "event_session_id ev = Inr sid" "dict_key sid = Inr k"
    by (rule is_eventD)
  have t: "dict_get ev (u ''text'') (JStr []) = Inr (JStr t)"
    using assms(2) by (auto simp: event_text_def split: sum.splits json.splits)
  have p: "py_print [JStr (strip t)] = Inr ()"
    using assms(3) by (simp add: py_print_def)
  from handle_event_branch [OF a(1,2), of e s]
  have "handle_event e s ev = on_user_speak s ev sid" by auto
  also have "\<dots> = Inr (None,
      if strip t \<noteq> [] then put_session k ((stored s k)\<lparr>messages := messages (stored s k) @ [strip t]\<rparr>) s
      else ensure_session k s)"
    unfolding on_user_speak_def t a(3) py_strip.simps bnd_Inr p
    by (cases "sessions s k")
       (simp_all add: ensure_session_def store_get_def put_session_def stored_def Let_def)
  finally show ?thesis .
qed

lemma he_timeout:
  assumes "is_event ''user_input_timeout'' k ev" and "event_session_id ev = Inr sid"
  shows "handle_event e s ev =
     (let d = stored s k in
      if messages d \<noteq> [] \<and> \<not> flag (thanked d) then
        Inr (Some (thanks_action sid),
             notify_clawdbot (caller d) (messages d) (put_session k (d\<lparr>thanked := Some True\<rparr>) s))
      else if messages d = [] then Inr (Some (reprompt_action sid), ensure_session k s)
      else Inr (None, s))"
proof -
  from assms have a: "event_type ev = Inr (JStr (u ''user_input_timeout''))" "dict_key sid = Inr k"
    by (auto simp: is_event_def event_key_def)
  from handle_event_branch [OF a(1) assms(2), of e s]
  have "handle_event e s ev = on_user_input_timeout s sid" by auto
  also have "\<dots> = (let d = stored s k in
      if messages d \<noteq> [] \<and> \<not> flag (thanked d) then
        Inr (Some (thanks_action sid),
             notify_clawdbot (caller d) (messages d) (put_session k (d\<lparr>thanked := Some True\<rparr>) s))
      else if messages d = [] then Inr (Some (reprompt_action sid), ensure_session k s)
      else Inr (None, s))"
    unfolding on_user_input_timeout_def a(2)
    by (cases "sessions s k")
       (simp_all add: ensure_session_def store_get_def put_session_def stored_def Let_def new_session_def)
  finally show ?thesis .
qed

lemma he_end:
  assumes "is_event ''session_end'' k ev"
  shows "handle_event e s ev = Inr (None,
      if thanked_in s k then s\<lparr>sessions := (sessions s)(k := None)\<rparr>
      else notify_clawdbot (caller_of s k) (messages_of s k) (s\<lparr>sessions := (sessions s)(k := None)\<rparr>))"
proof -
  from assms obtain sid where a: "event_type ev = Inr (JStr (u ''session_end''))"
    "event_session_id ev = Inr sid" "dict_key sid = Inr k"
    by (rule is_eventD)
  from handle_event_branch [OF a(1,2), of e s]
  have h: "handle_event e s ev = on_session_end s sid" by auto
  show ?thesis
  proof (cases "sessions s = Map.empty")
    case True
    then have none: "sessions s k = None" by simp
    then have "(sessions s)(k := None) = sessions s"
      by (simp add: fun_upd_idem)
    then have eq: "s\<lparr>sessions := (sessions s)(k := None)\<rparr> = s"
      by simp
    have "handle_event e s ev = Inr (None, notify_clawdbot unbekannt [] s)"
      using h True by (simp add: on_session_end_def)
    then show ?thesis
      unfolding eq by (simp add: thanked_in_def caller_of_def messages_of_def none)
  next
    case False
    with h show ?thesis
      unfolding on_session_end_def a(3)
      by (simp add: thanked_in_def caller_of_def messages_of_def Let_def)
  qed
qed

text \<open>A \<open>session_end\<close> returns no action and touches no record but that of its key.\<close>

lemma end_frame:
  assumes "on_session_end s sid = Inr (a, s1)"
  shows "a = None \<and> (dict_key sid \<noteq> Inr k \<longrightarrow> sessions s1 k = sessions s k)"
proof (cases "sessions s = Map.empty")
  case True
  with assms show ?thesis
    by (auto simp: on_session_end_def notify_clawdbot_def)
next
  case False
  with assms obtain k' where k': "dict_key sid = Inr k'"
    by (cases "dict_key sid") (simp_all add: on_session_end_def)
  from assms False k' have "a = None" and "sessions s1 = (sessions s)(k' := None)"
    by (auto simp: on_session_end_def Let_def notify_clawdbot_def split: if_splits)
  with k' show ?thesis by auto
qed

lemma he_ase:
  assumes "is_event ''assistant_speech_ended'' k ev" and "event_session_id ev = Inr sid"
  shows "handle_event e s ev =
     (case BEEP_AUDIO e of
        None \<Rightarrow> Inr (None, s)
      | Some audio \<Rightarrow>
          if \<not> beeped_in s k \<and> audio \<noteq> [] then
            Inr (Some (audio_action sid audio),
                 case sessions s k of None \<Rightarrow> s | Some r \<Rightarrow> put_session k (r\<lparr>beeped := Some True\<rparr>) s)
          else Inr (None, s))"
proof -
  from assms have a: "event_type ev = Inr (JStr (u ''assistant_speech_ended''))" "dict_key sid = Inr k"
    by (auto simp: is_event_def event_key_def)
  from handle_event_branch [OF a(1) assms(2), of e s]
  have "handle_event e s ev = on_assistant_speech_ended e s sid" by auto
  then show ?thesis
    unfolding on_assistant_speech_ended_def a(2)
    by (simp add: beeped_in_def Let_def split: option.splits)
qed

lemma he_other:
  assumes "event_type ev = Inr t" and "event_session_id ev = Inr sid" and "t \<notin> known_types"
  shows "handle_event e s ev = Inr (None, s)"
  using handle_event_branch [OF assms(1,2), of e s] assms(3)
  by (auto simp: known_types_def)

lemma handle_event_Inr_head:
  assumes "handle_event e s ev = Inr r"
  shows "\<exists>t sid. event_type ev = Inr t \<and> event_session_id ev = Inr sid"
proof -
  from assms obtain t where t: "dict_get ev (u ''type'') (JStr []) = Inr t"
    unfolding handle_event_def by (cases "dict_get ev (u ''type'') (JStr [])") simp_all
  from assms t obtain session where se: "dict_get ev (u ''session'') (JObj []) = Inr session"
    unfolding handle_event_def by (cases "dict_get ev (u ''session'') (JObj [])") simp_all
  from assms t se obtain sid where "dict_get session (u ''id'') (JStr []) = Inr sid"
    unfolding handle_event_def by (cases "dict_get session (u ''id'') (JStr [])") simp_all
  with t se show ?thesis
    by (simp add: event_type_def event_session_id_def)
qed

text \<open>Every branch that reads the store by key needs a hashable id, but \<open>session_end\<close>.\<close>

lemma known_type_key:
  assumes "handle_event e s ev = Inr r" and "event_type ev = Inr t"
    and "event_session_id ev = Inr sid" and "t \<in> known_types"
    and "t \<noteq> JStr (u ''session_end'')"
  shows "\<exists>k'. dict_key sid = Inr k'"
proof (cases "dict_key sid")
  case (Inr k')
  then show ?thesis by blast
next
  case (Inl err)
  have sp: "\<exists>x. on_user_speak s ev sid = Inl x"
  proof (cases "on_user_speak s ev sid")
    case (Inl x)
    then show ?thesis by blast
  next
    case (Inr r')
    from speak_has_text [OF Inr] obtain tx where
      tx: "event_text ev = Some tx" "utf8_encodable (strip tx)"
      by blast
    then have "dict_get ev (u ''text'') (JStr []) = Inr (JStr tx)"
      by (auto simp: event_text_def split: sum.splits json.splits)
    with tx Inl have "on_user_speak s ev sid = Inl err"
      by (simp add: on_user_speak_def py_print_def)
    then show ?thesis by blast
  qed
  have tm: "on_user_input_timeout s sid = Inl err"
    by (simp add: on_user_input_timeout_def Inl)
  have ae: "on_assistant_speech_ended e s sid = Inl err"
    by (simp add: on_assistant_speech_ended_def Inl)
  from handle_event_branch [OF assms(2,3), of e s] obtain c d where
    br: "handle_event e s ev =
      (if t = JStr (u ''session_start'') then
         bnd (py_print [c, d]) (\<lambda>printed.
         bnd (dict_key sid) (\<lambda>k. Inr (Some (greeting_action sid),
            put_session k \<lparr>caller = c, messages = [], beeped = Some False, thanked = None\<rparr> s)))
       else if t = JStr (u ''user_speak'') then on_user_speak s ev sid
       else if t = JStr (u ''user_input_timeout'') then on_user_input_timeout s sid
       else if t = JStr (u ''session_end'') then on_session_end s sid
       else if t = JStr (u ''assistant_speak'') then Inr (None, s)
       else if t = JStr (u ''assistant_speech_ended'') then on_assistant_speech_ended e s sid
       else Inr (None, s))"
    by blast
  have st: "\<exists>x. bnd (py_print [c, d]) (\<lambda>printed.
         bnd (dict_key sid) (\<lambda>k. Inr (Some (greeting_action sid),
            put_session k \<lparr>caller = c, messages = [], beeped = Some False, thanked = None\<rparr> s))) = Inl x"
    using py_print_cases [of "[c, d]"] Inl by auto
  from br assms(1,4,5) sp tm ae st show ?thesis
    by (auto simp: known_types_def)
qed

lemma mk_event_is_event: "is_event t (KStr (u sid)) (mk_event t sid)"
  by (simp add: is_event_def event_type_def event_key_def event_session_id_def mk_event_def)

lemma mk_event_session_id: "event_session_id (mk_event t sid) = Inr (JStr (u sid))"
  by (simp add: event_session_id_def mk_event_def)

lemma mk_speak_is_event: "is_event ''user_speak'' (KStr (u sid)) (mk_speak sid x)"
  by (simp add: is_event_def event_type_def event_key_def event_session_id_def mk_speak_def)

lemma mk_speak_text: "event_text (mk_speak sid x) = Some (u x)"
  by (simp add: event_text_def mk_speak_def)

lemma mk_start_is_event: "is_event ''session_start'' (KStr (u sid)) (mk_start sid from)"
  by (simp add: is_event_def event_type_def event_key_def event_session_id_def mk_start_def)

lemma mk_event_not: "t \<noteq> t' \<Longrightarrow> \<not> is_event t' k (mk_event t sid)"
  by (simp add: is_event_def event_type_def mk_event_def)

lemma mk_speak_not: "t' \<noteq> ''user_speak'' \<Longrightarrow> \<not> is_event t' k (mk_speak sid x)"
  by (auto simp: is_event_def event_type_def mk_speak_def)

lemma mk_event_other_key: "sid \<noteq> sid' \<Longrightarrow> \<not> is_event t' (KStr (u sid')) (mk_event t sid)"
  by (simp add: is_event_def event_key_def event_session_id_def mk_event_def)

subsection \<open>What a handler leaves in the store\<close>


lemma strip_blank:
  assumes "list_all py_isspace t"
  shows "strip t = []"
proof -
  have "dropWhile py_isspace t = []"
    using assms by (simp add: dropWhile_eq_Nil_conv list_all_iff)
  then show ?thesis
    unfolding strip_def by (simp del: dropWhile_eq_Nil_conv)
qed

lemma sessions_put [simp]: "sessions (put_session k d s) = (sessions s)(k \<mapsto> d)"
  by (simp add: put_session_def)

lemma sent_put [simp]: "sent (put_session k d s) = sent s"
  by (simp add: put_session_def)

lemma sent_ensure [simp]: "sent (ensure_session k s) = sent s"
  by (simp add: ensure_session_def)

lemma sent_notify [simp]:
  "sent (notify_clawdbot c msgs s) =
     sent s @ [\<lparr>n_caller = c, n_messages = msgs, n_msg_text = msg_text msgs\<rparr>]"
  by (simp add: notify_clawdbot_def)

lemma sessions_notify [simp]: "sessions (notify_clawdbot c msgs s) = sessions s"
  by (simp add: notify_clawdbot_def)

lemma stored_ensure [simp]: "sessions (ensure_session k s) k = Some (stored s k)"
  by (simp add: ensure_session_def stored_def split: option.splits)

lemma ensure_other: "k' \<noteq> k \<Longrightarrow> sessions (ensure_session k s) k' = sessions s k'"
  by (simp add: ensure_session_def)

lemma ensure_idem [simp]: "ensure_session k (ensure_session k s) = ensure_session k s"
  by (simp add: ensure_session_def)

lemma messages_stored [simp]: "messages (stored s k) = messages_of s k"
  by (simp add: stored_def messages_of_def new_session_def split: option.splits)

lemma thanked_stored [simp]: "flag (thanked (stored s k)) = thanked_in s k"
  by (simp add: stored_def thanked_in_def new_session_def flag_def split: option.splits)

lemma beeped_stored [simp]: "flag (beeped (stored s k)) = beeped_in s k"
  by (simp add: stored_def beeped_in_def new_session_def flag_def split: option.splits)

lemma caller_stored [simp]: "caller (stored s k) = caller_of s k"
  by (simp add: stored_def caller_of_def new_session_def split: option.splits)

lemma view_ensure [simp]:
  "messages_of (ensure_session k s) k = messages_of s k"
  "thanked_in (ensure_session k s) k = thanked_in s k"
  "beeped_in (ensure_session k s) k = beeped_in s k"
  "caller_of (ensure_session k s) k = caller_of s k"
  by (simp_all add: messages_of_def thanked_in_def beeped_in_def caller_of_def)

lemma view_put [simp]:
  "messages_of (put_session k d s) k = messages d"
  "thanked_in (put_session k d s) k = flag (thanked d)"
  "beeped_in (put_session k d s) k = flag (beeped d)"
  "caller_of (put_session k d s) k = caller d"
  by (simp_all add: messages_of_def thanked_in_def beeped_in_def caller_of_def)

lemma view_notify [simp]:
  "messages_of (notify_clawdbot c msgs s) k = messages_of s k"
  "thanked_in (notify_clawdbot c msgs s) k = thanked_in s k"
  "beeped_in (notify_clawdbot c msgs s) k = beeped_in s k"
  "caller_of (notify_clawdbot c msgs s) k = caller_of s k"
  by (simp_all add: messages_of_def thanked_in_def beeped_in_def caller_of_def)

text \<open>The effect of one \<open>user_speak\<close> event on what is stored for its session.\<close>

lemma speak_step:
  assumes "speak_event k ev"
  shows "\<exists>s1. handle_event e s ev = Inr (None, s1) \<and>
     messages_of s1 k = messages_of s k @ said [ev] \<and> sent s1 = sent s \<and>
     thanked_in s1 k = thanked_in s k \<and> beeped_in s1 k = beeped_in s k \<and>
     caller_of s1 k = caller_of s k"
proof -
  from assms obtain t where a: "is_event ''user_speak'' k ev" and t: "event_text ev = Some t"
    and p: "utf8_encodable (strip t)"
    by (auto simp: speak_event_def split: option.splits)
  show ?thesis
    unfolding he_speak [OF a t p] using t
    by (simp add: said_def)
qed

lemma run_speak:
  assumes "list_all (speak_event k) evs"
  shows "\<exists>s1. run e s evs = Inr (replicate (length evs) None, s1) \<and>
     messages_of s1 k = messages_of s k @ said evs \<and> sent s1 = sent s \<and>
     thanked_in s1 k = thanked_in s k \<and> beeped_in s1 k = beeped_in s k \<and>
     caller_of s1 k = caller_of s k"
  using assms
proof (induction evs arbitrary: s)
  case Nil
  show ?case by (simp add: said_def)
next
  case (Cons ev evs)
  then have ev: "speak_event k ev" and evs: "list_all (speak_event k) evs"
    by simp_all
  from speak_step [OF ev, of e s] obtain s1 where
    s1: "handle_event e s ev = Inr (None, s1)"
      "messages_of s1 k = messages_of s k @ said [ev]" "sent s1 = sent s"
      "thanked_in s1 k = thanked_in s k" "beeped_in s1 k = beeped_in s k"
      "caller_of s1 k = caller_of s k"
    by blast
  from Cons.IH [OF evs, of s1] obtain s2 where
    s2: "run e s1 evs = Inr (replicate (length evs) None, s2)"
      "messages_of s2 k = messages_of s1 k @ said evs" "sent s2 = sent s1"
      "thanked_in s2 k = thanked_in s1 k" "beeped_in s2 k = beeped_in s1 k"
      "caller_of s2 k = caller_of s1 k"
    by blast
  have "said (ev # evs) = said [ev] @ said evs"
    by (simp add: said_def)
  with s1 s2 show ?case
    by simp
qed

lemma blank_said: "list_all (blank_speak k) evs \<Longrightarrow> said evs = []"
  by (induction evs) (auto simp: said_def blank_speak_def strip_blank split: option.splits)

lemma blank_is_speak: "blank_speak k ev \<Longrightarrow> speak_event k ev"
  by (auto simp: blank_speak_def speak_event_def strip_blank utf8_encodable_def split: option.splits)

lemma run_append:
  "run e s (xs @ ys) =
     bnd (run e s xs) (\<lambda>(a1, s1). bnd (run e s1 ys) (\<lambda>(a2, s2). Inr (a1 @ a2, s2)))"
proof (induction xs arbitrary: s)
  case Nil
  show ?case by (cases "run e s ys") auto
next
  case (Cons x xs)
  show ?case
  proof (cases "handle_event e s x")
    case (Inl err)
    then show ?thesis by simp
  next
    case (Inr r)
    obtain a s1 where r: "r = (a, s1)" by (cases r)
    show ?thesis
      using Inr r Cons.IH [of s1]
      by (cases "run e s1 xs") (auto simp: bnd_def split: sum.splits)
  qed
qed


subsection \<open>The flags of a record\<close>

lemma thanked_in_beep:
  "sessions s k = Some r \<Longrightarrow> thanked_in (put_session k (r\<lparr>beeped := b\<rparr>) s) k = thanked_in s k"
  by (simp add: thanked_in_def)

lemma flags_put_other:
  assumes "k' \<noteq> k"
  shows "thanked_in (put_session k' d s) k = thanked_in s k"
    and "beeped_in (put_session k' d s) k = beeped_in s k"
  using assms by (simp_all add: thanked_in_def beeped_in_def)

lemma flags_ensure:
  "thanked_in (ensure_session k' s) k = thanked_in s k"
  "beeped_in (ensure_session k' s) k = beeped_in s k"
  by (cases "k' = k"; simp add: thanked_in_def beeped_in_def ensure_other)+


lemma thanked_put_stored:
  assumes "thanked d = thanked (stored s k')"
  shows "thanked_in (put_session k' d s) k = thanked_in s k"
  using assms by (cases "k' = k") (simp_all add: flags_put_other)

lemma beeped_put_stored:
  assumes "beeped d = beeped (stored s k')"
  shows "beeped_in (put_session k' d s) k = beeped_in s k"
  using assms by (cases "k' = k") (simp_all add: flags_put_other)

lemma thanked_put_set:
  "thanked_in s k \<Longrightarrow> thanked_in (put_session k' (d\<lparr>thanked := Some True\<rparr>) s) k"
  by (cases "k' = k") (simp_all add: flags_put_other flag_def)

lemma beeped_put_set:
  "beeped_in s k \<Longrightarrow> beeped_in (put_session k' (d\<lparr>beeped := Some True\<rparr>) s) k"
  by (cases "k' = k") (simp_all add: flags_put_other flag_def)

lemma stored_Some: "sessions s k = Some r \<Longrightarrow> stored s k = r"
  by (simp add: stored_def)


lemma step_keeps:
  assumes "\<not> is_event ''session_start'' k ev" and "\<not> is_event ''session_end'' k ev"
  shows "(thanked_in s k \<longrightarrow> thanked_in (step e s ev) k) \<and>
         (beeped_in s k \<longrightarrow> beeped_in (step e s ev) k)"
proof (cases "handle_event e s ev")
  case (Inl err)
  then show ?thesis by (simp add: step_def)
next
  case (Inr r)
  obtain a s1 where r: "r = (a, s1)" by (cases r)
  have st: "step e s ev = s1"
    using Inr r by (simp add: step_def)
  from handle_event_Inr_head [OF Inr] obtain t sid where
    t: "event_type ev = Inr t" and sid: "event_session_id ev = Inr sid"
    by blast
  show ?thesis
  proof (cases "t \<in> known_types")
    case False
    from he_other [OF t sid this, of e s] Inr r have "s1 = s" by simp
    then show ?thesis by (simp add: st)
  next
    case True
    show ?thesis
    proof (cases "t = JStr (u ''session_end'')")
      case fin: True
      from handle_event_branch [OF t sid, of e s] fin Inr r
      have "on_session_end s sid = Inr (a, s1)" by auto
      moreover have "dict_key sid \<noteq> Inr k"
        using assms(2) fin t sid by (auto simp: is_event_def event_key_def)
      ultimately have "sessions s1 k = sessions s k"
        using end_frame by blast
      then show ?thesis
        by (simp add: st thanked_in_def beeped_in_def)
    next
      case nofin: False
      from known_type_key [OF Inr t sid True nofin] obtain k' where k': "dict_key sid = Inr k'"
        by blast
      have ev: "is_event n k' ev" if "t = JStr (u n)" for n
        using that t sid k' by (simp add: is_event_def event_key_def)
      from True nofin consider (start) "t = JStr (u ''session_start'')"
        | (speak) "t = JStr (u ''user_speak'')"
        | (timeout) "t = JStr (u ''user_input_timeout'')"
        | (ase) "t = JStr (u ''assistant_speech_ended'')"
        by (auto simp: known_types_def)
      then show ?thesis
      proof cases
        case start
        from ev [OF start] assms(1) have ne: "k' \<noteq> k" by auto
        from he_start_cases [OF ev [OF start], of e s] Inr r obtain d where
          "s1 = put_session k' d s"
          by auto
        then show ?thesis
          by (simp add: st flags_put_other [OF ne])
      next
        case speak
        from handle_event_branch [OF t sid, of e s] speak Inr
        have "on_user_speak s ev sid = Inr r" by auto
        from speak_has_text [OF this] obtain tx where tx: "event_text ev = Some tx"
          and p: "utf8_encodable (strip tx)"
          by blast
        from he_speak [OF ev [OF speak] tx p, of e s] Inr r
        have "s1 = put_session k' ((stored s k')\<lparr>messages := messages (stored s k') @ [strip tx]\<rparr>) s
            \<or> s1 = ensure_session k' s"
          by (simp split: if_splits)
        then show ?thesis
          by (auto simp: st flags_ensure thanked_put_stored beeped_put_stored)
      next
        case timeout
        from he_timeout [OF ev [OF timeout] sid, of e s] Inr r
        have "s1 = notify_clawdbot (caller (stored s k')) (messages (stored s k'))
                (put_session k' ((stored s k')\<lparr>thanked := Some True\<rparr>) s)
            \<or> s1 = ensure_session k' s \<or> s1 = s"
          by (simp add: Let_def split: if_splits)
        then show ?thesis
          by (auto simp: st flags_ensure thanked_put_set beeped_put_stored
              simp del: messages_stored caller_stored)
      next
        case ase
        from he_ase [OF ev [OF ase] sid, of e s] Inr r
        have "s1 = s \<or> (\<exists>d. sessions s k' = Some d \<and> s1 = put_session k' (d\<lparr>beeped := Some True\<rparr>) s)"
          by (auto split: option.splits if_splits)
        then show ?thesis
        proof
          assume "s1 = s"
          then show ?thesis by (simp add: st)
        next
          assume "\<exists>d. sessions s k' = Some d \<and> s1 = put_session k' (d\<lparr>beeped := Some True\<rparr>) s"
          then obtain d where d: "sessions s k' = Some d"
            and s1: "s1 = put_session k' (d\<lparr>beeped := Some True\<rparr>) s"
            by blast
          have "thanked_in s1 k = thanked_in s k"
            unfolding s1 by (rule thanked_put_stored) (simp add: stored_Some [OF d])
          moreover have "beeped_in s k \<Longrightarrow> beeped_in s1 k"
            unfolding s1 by (rule beeped_put_set)
          ultimately show ?thesis by (simp add: st)
        qed
      qed
    qed
  qed
qed

lemma sorted_thanked:
  assumes "same_record k evs"
  shows "sorted (map (\<lambda>s1. thanked_in s1 k) (s # states e s evs))"
  using assms
proof (induction evs arbitrary: s)
  case Nil
  show ?case by simp
next
  case (Cons ev evs)
  from Cons.prems have ev: "\<not> is_event ''session_start'' k ev" "\<not> is_event ''session_end'' k ev"
    and evs: "same_record k evs"
    by (simp_all add: same_record_def)
  from step_keeps [OF ev, of s e] have "thanked_in s k \<le> thanked_in (step e s ev) k"
    by (simp add: le_bool_def)
  with Cons.IH [OF evs, of "step e s ev"] show ?case
    by (simp only: states.simps list.map sorted2 simp_thms)
qed

lemma sorted_beeped:
  assumes "same_record k evs"
  shows "sorted (map (\<lambda>s1. beeped_in s1 k) (s # states e s evs))"
  using assms
proof (induction evs arbitrary: s)
  case Nil
  show ?case by simp
next
  case (Cons ev evs)
  from Cons.prems have ev: "\<not> is_event ''session_start'' k ev" "\<not> is_event ''session_end'' k ev"
    and evs: "same_record k evs"
    by (simp_all add: same_record_def)
  from step_keeps [OF ev, of s e] have "beeped_in s k \<le> beeped_in (step e s ev) k"
    by (simp add: le_bool_def)
  with Cons.IH [OF evs, of "step e s ev"] show ?case
    by (simp only: states.simps list.map sorted2 simp_thms)
qed

subsection \<open>Evaluation of concrete runs\<close>

lemmas run_simps =
  handle_event_def on_session_start_def on_user_speak_def on_user_input_timeout_def
  on_session_end_def on_assistant_speech_ended_def mk_event_def mk_start_def mk_speak_def
  ensure_session_def store_get_def put_session_def notify_clawdbot_def flag_def
  new_session_def run_sent_def run_messages_def run_actions_def run_callers_def messages_of_def
  s0_def env0_def Let_def unbekannt_def msg_text_def strip_def py_isspace_def step_def
  thanked_trace_def beeped_trace_def thanked_in_def beeped_in_def audio_action_def u_def
  py_print_def utf8_encodable_def

subsection \<open>The invariant of a call\<close>

lemma final_append: "final e s (xs @ ys) = final e (final e s xs) ys"
  by (induction xs arbitrary: s) simp_all

lemma start_step:
  assumes "is_event ''session_start'' k ev" and "\<not> thanked_in s k"
  shows "\<not> thanked_in (step e s ev) k \<and> sent (step e s ev) = sent s"
proof -
  from he_start_cases [OF assms(1), of e s]
  consider "handle_event e s ev = Inl UnicodeEncodeError"
    | sid c where "handle_event e s ev = Inr (Some (greeting_action sid),
        put_session k \<lparr>caller = c, messages = [], beeped = Some False, thanked = None\<rparr> s)"
    by blast
  then show ?thesis
  proof cases
    case 1
    with assms(2) show ?thesis by (simp add: step_def)
  next
    case 2
    then show ?thesis by (simp add: step_def flag_def)
  qed
qed

lemma final_starts:
  assumes "list_all (is_event ''session_start'' k) evs" and "\<not> thanked_in s k"
  shows "\<not> thanked_in (final e s evs) k \<and> sent (final e s evs) = sent s"
  using assms
proof (induction evs arbitrary: s)
  case Nil
  then show ?case by simp
next
  case (Cons ev evs)
  from Cons.prems have ev: "is_event ''session_start'' k ev"
    and evs: "list_all (is_event ''session_start'' k) evs"
    by simp_all
  from start_step [OF ev Cons.prems(2), of e]
  have 1: "\<not> thanked_in (step e s ev) k" and 2: "sent (step e s ev) = sent s"
    by simp_all
  from Cons.IH [OF evs 1] 2 show ?case
    by simp
qed

lemma listening_step:
  assumes "listening_event k ev" and "notified_once base s k"
  shows "notified_once base (step e s ev) k"
proof (cases "handle_event e s ev")
  case (Inl err)
  with assms(2) show ?thesis by (simp add: step_def)
next
  case (Inr r)
  obtain a s1 where r: "r = (a, s1)" by (cases r)
  have st: "step e s ev = s1"
    using Inr r by (simp add: step_def)
  from handle_event_Inr_head [OF Inr] obtain t sid where
    t: "event_type ev = Inr t" and sid: "event_session_id ev = Inr sid"
    by blast
  from assms(1) t have ek: "event_key ev = Inr k"
    and ns: "t \<noteq> JStr (u ''session_start'')" and ne: "t \<noteq> JStr (u ''session_end'')"
    by (simp_all add: listening_event_def)
  have ev: "is_event n k ev" if "t = JStr (u n)" for n
    using that t ek by (simp add: is_event_def)
  consider (speak) "t = JStr (u ''user_speak'')"
    | (timeout) "t = JStr (u ''user_input_timeout'')"
    | (ase) "t = JStr (u ''assistant_speech_ended'')"
    | (other) "t \<notin> known_types"
    using ns ne by (auto simp: known_types_def)
  then show ?thesis
  proof cases
    case speak
    from handle_event_branch [OF t sid, of e s] speak Inr
    have "on_user_speak s ev sid = Inr r" by auto
    from speak_has_text [OF this] ev [OF speak] have "speak_event k ev"
      by (auto simp: speak_event_def)
    from speak_step [OF this, of e s] Inr r have
      "sent s1 = sent s" "thanked_in s1 k = thanked_in s k"
      by auto
    with assms(2) show ?thesis
      by (simp add: st notified_once_def)
  next
    case timeout
    show ?thesis
    proof (cases "messages_of s k \<noteq> [] \<and> \<not> thanked_in s k")
      case True
      let ?s1 = "notify_clawdbot (caller_of s k) (messages_of s k)
        (put_session k ((stored s k)\<lparr>thanked := Some True\<rparr>) s)"
      have "handle_event e s ev = Inr (Some (thanks_action sid), ?s1)"
        using he_timeout [OF ev [OF timeout] sid, of e s] True by (simp add: Let_def)
      with Inr r have "s1 = ?s1" by simp
      moreover have "notified_once base ?s1 k"
        using assms(2) True by (simp add: notified_once_def flag_def)
      ultimately show ?thesis by (simp add: st)
    next
      case False
      then have "handle_event e s ev = Inr (Some (reprompt_action sid), ensure_session k s) \<or>
        handle_event e s ev = Inr (None, s)"
        using he_timeout [OF ev [OF timeout] sid, of e s] by (auto simp: Let_def)
      with Inr r have "s1 = ensure_session k s \<or> s1 = s" by auto
      moreover have "notified_once base (ensure_session k s) k"
        using assms(2) by (simp add: notified_once_def)
      ultimately show ?thesis
        using assms(2) by (auto simp: st)
    qed
  next
    case ase
    have keep: "notified_once base (put_session k (d\<lparr>beeped := Some True\<rparr>) s) k"
      if "sessions s k = Some d" for d
      using assms(2) thanked_in_beep [OF that, of "Some True"]
      by (simp add: notified_once_def del: view_put)
    from he_ase [OF ev [OF ase] sid, of e s] Inr r
    have "s1 = s \<or> (\<exists>d. sessions s k = Some d \<and> s1 = put_session k (d\<lparr>beeped := Some True\<rparr>) s)"
      by (auto split: option.splits if_splits)
    with keep assms(2) show ?thesis
      by (auto simp: st)
  next
    case other
    from he_other [OF t sid this, of e s] Inr r have "s1 = s" by simp
    with assms(2) show ?thesis by (simp add: st)
  qed
qed

lemma final_listening:
  assumes "list_all (listening_event k) evs" and "notified_once base s k"
  shows "notified_once base (final e s evs) k"
  using assms
proof (induction evs arbitrary: s)
  case Nil
  then show ?case by simp
next
  case (Cons ev evs)
  from Cons.prems have ev: "listening_event k ev" and evs: "list_all (listening_event k) evs"
    by simp_all
  from Cons.IH [OF evs listening_step [OF ev Cons.prems(2), of e]] show ?case
    by simp
qed

lemma end_step:
  assumes "is_event ''session_end'' k ev" and "notified_once base s k"
  shows "\<exists>n. sent (step e s ev) = base @ [n]"
proof (cases "thanked_in s k")
  case True
  with assms(2) have "sent s \<noteq> []" "butlast (sent s) = base"
    by (simp_all add: notified_once_def)
  then have "sent s = base @ [last (sent s)]"
    using append_butlast_last_id by fastforce
  with True he_end [OF assms(1), of e s] show ?thesis
    by (auto simp: step_def)
next
  case False
  with assms(2) have "sent s = base"
    by (simp add: notified_once_def)
  with False he_end [OF assms(1), of e s] show ?thesis
    by (auto simp: step_def)
qed

text \<open>
  C1, as amended. The events are given to \<open>handle_event\<close> one after another as the
  server does, an event on which it raises being dropped without effect. A call whose events, all for one
  session id that is not marked as thanked, are any number of \<open>session_start\<close> events,
  then any number of events of any type but \<open>session_start\<close> and \<open>session_end\<close>
  (\<open>user_speak\<close>, \<open>user_input_timeout\<close>, \<open>assistant_speak\<close>, \<open>assistant_speech_ended\<close>,
  unrecognised ones; in any order, repeated ones and ones that raise included), then one
  \<open>session_end\<close>: exactly one notification is sent.
\<close>

theorem one_notification_per_call:
  assumes "list_all (is_event ''session_start'' k) starts"
    and "list_all (listening_event k) mid"
    and "is_event ''session_end'' k fin"
    and "\<not> thanked_in s k"
  shows "\<exists>n. sent (final e s (starts @ mid @ [fin])) = sent s @ [n]"
proof -
  let ?s1 = "final e s starts"
  let ?s2 = "final e ?s1 mid"
  from final_starts [OF assms(1,4), of e]
  have "notified_once (sent s) ?s1 k"
    by (simp add: notified_once_def)
  from final_listening [OF assms(2) this, of e]
  have "notified_once (sent s) ?s2 k" .
  from end_step [OF assms(3) this, of e] obtain n where "sent (step e ?s2 fin) = sent s @ [n]" ..
  then have "sent (final e s (starts @ mid @ [fin])) = sent s @ [n]"
    by (simp add: final_append)
  then show ?thesis ..
qed

theorem one_notification_per_call_witness:
  "list_all (is_event ''session_start'' (KStr (u ''s1''))) [mk_start ''s1'' ''+491701234567''] \<and>
   list_all (listening_event (KStr (u ''s1'')))
     [mk_speak ''s1'' ''Hallo hier ist Anna'',
      JObj [(u ''type'', JStr (u ''user_speak'')), (u ''session'', JObj [(u ''id'', JStr (u ''s1''))]),
            (u ''text'', JNum 5)],
      mk_event ''user_input_timeout'' ''s1'',
      mk_event ''assistant_speech_ended'' ''s1'', mk_event ''user_input_timeout'' ''s1'',
      mk_event ''assistant_speak'' ''s1''] \<and>
   is_event ''session_end'' (KStr (u ''s1'')) (mk_event ''session_end'' ''s1'') \<and>
   \<not> thanked_in s0 (KStr (u ''s1'')) \<and>
   (\<exists>n. sent (final env0 s0
      ([mk_start ''s1'' ''+491701234567''] @
       [mk_speak ''s1'' ''Hallo hier ist Anna'',
        JObj [(u ''type'', JStr (u ''user_speak'')), (u ''session'', JObj [(u ''id'', JStr (u ''s1''))]),
              (u ''text'', JNum 5)],
        mk_event ''user_input_timeout'' ''s1'',
        mk_event ''assistant_speech_ended'' ''s1'', mk_event ''user_input_timeout'' ''s1'',
        mk_event ''assistant_speak'' ''s1''] @
       [mk_event ''session_end'' ''s1''])) = sent s0 @ [n])"
proof -
  let ?k = "KStr (u ''s1'')"
  have a: "list_all (is_event ''session_start'' ?k) [mk_start ''s1'' ''+491701234567'']"
    by (simp add: mk_start_is_event)
  have b: "list_all (listening_event ?k)
     [mk_speak ''s1'' ''Hallo hier ist Anna'',
      JObj [(u ''type'', JStr (u ''user_speak'')), (u ''session'', JObj [(u ''id'', JStr (u ''s1''))]),
            (u ''text'', JNum 5)],
      mk_event ''user_input_timeout'' ''s1'',
      mk_event ''assistant_speech_ended'' ''s1'', mk_event ''user_input_timeout'' ''s1'',
      mk_event ''assistant_speak'' ''s1'']"
    by (simp add: listening_event_def event_key_def event_session_id_def event_type_def
        mk_speak_def mk_event_def)
  have c: "is_event ''session_end'' ?k (mk_event ''session_end'' ''s1'')"
    by (rule mk_event_is_event)
  have d: "\<not> thanked_in s0 ?k"
    by (simp add: thanked_in_def s0_def)
  from one_notification_per_call [OF a b c d, of env0] a b c d show ?thesis
    by blast
qed

theorem repeated_session_end_notifies_twice:
  "run_sent env0 s0
     [mk_start ''s1'' ''+491701234567'', mk_speak ''s1'' ''Hallo'',
      mk_event ''session_end'' ''s1'', mk_event ''session_end'' ''s1''] =
   Inr [\<lparr>n_caller = JStr (u ''+491701234567''), n_messages = [u ''Hallo''],
          n_msg_text = u ''  > Hallo''\<rparr>,
        \<lparr>n_caller = JStr (u ''unbekannt''), n_messages = [],
          n_msg_text = u ''  (keine Nachricht hinterlassen)''\<rparr>]"
  by (simp add: run_simps)

subsection \<open>session_end for an id without a record\<close>

text \<open>
  C10. A \<open>session_end\<close> event whose session id has no record in the store: the handler
  calls \<open>notify_clawdbot\<close> once, with the default caller \<open>"unbekannt"\<close> and the empty
  message list, whose text is the no-message marker; the store is as before (only the
  list of notifications grows) and no action is returned.
\<close>

theorem session_end_without_record:
  assumes "is_event ''session_end'' k ev" and "sessions s k = None"
  shows "handle_event e s ev = Inr (None,
     s\<lparr>sent := sent s @ [\<lparr>n_caller = JStr (u ''unbekannt''), n_messages = [],
                             n_msg_text = u ''  (keine Nachricht hinterlassen)''\<rparr>]\<rparr>)"
proof -
  have "(sessions s)(k := None) = sessions s"
    using assms(2) by (simp add: fun_upd_idem)
  then show ?thesis
    using he_end [OF assms(1), of e s] assms(2)
    by (simp add: thanked_in_def caller_of_def messages_of_def notify_clawdbot_def
        msg_text_def unbekannt_def)
qed

theorem session_end_without_record_witness:
  "is_event ''session_end'' (KStr (u ''s1'')) (mk_event ''session_end'' ''s1'') \<and>
   sessions s0 (KStr (u ''s1'')) = None \<and>
   handle_event env0 s0 (mk_event ''session_end'' ''s1'') = Inr (None,
     s0\<lparr>sent := [\<lparr>n_caller = JStr (u ''unbekannt''), n_messages = [],
                     n_msg_text = u ''  (keine Nachricht hinterlassen)''\<rparr>]\<rparr>)"
proof -
  have a: "is_event ''session_end'' (KStr (u ''s1'')) (mk_event ''session_end'' ''s1'')"
    by (rule mk_event_is_event)
  have b: "sessions s0 (KStr (u ''s1'')) = None"
    by (simp add: s0_def)
  from session_end_without_record [OF a b, of env0] a b show ?thesis
    by (simp add: s0_def)
qed

subsection \<open>A timeout before the caller has said anything\<close>

text \<open>
  C7. A \<open>user_input_timeout\<close> event for a session whose record has an empty \<open>messages\<close>
  list: the state is returned as it was (so the record, with its \<open>thanked\<close> flag, is
  unchanged and no notification is added), and the reply is the \<open>speak\<close> action with the
  re-prompt text and \<open>user_input_timeout_seconds\<close> 15.
\<close>

theorem timeout_without_messages:
  assumes "is_event ''user_input_timeout'' k ev" and "event_session_id ev = Inr sid"
    and "sessions s k = Some d" and "messages d = []"
  shows "handle_event e s ev = Inr (Some (JObj
       [(u ''type'', JStr (u ''speak'')),
        (u ''session_id'', sid),
        (u ''text'', JStr REPROMPT),
        (u ''user_input_timeout_seconds'', JNum 15)]), s)"
  using he_timeout [OF assms(1,2), of e s] assms(3,4)
  by (simp add: stored_def ensure_session_def reprompt_action_def)

theorem timeout_without_messages_witness:
  "is_event ''user_input_timeout'' (KStr (u ''s1'')) (mk_event ''user_input_timeout'' ''s1'') \<and>
   event_session_id (mk_event ''user_input_timeout'' ''s1'') = Inr (JStr (u ''s1'')) \<and>
   sessions (put_session (KStr (u ''s1'')) new_session s0) (KStr (u ''s1'')) = Some new_session \<and>
   messages new_session = [] \<and>
   handle_event env0 (put_session (KStr (u ''s1'')) new_session s0)
       (mk_event ''user_input_timeout'' ''s1'') =
     Inr (Some (JObj
       [(u ''type'', JStr (u ''speak'')),
        (u ''session_id'', JStr (u ''s1'')),
        (u ''text'', JStr REPROMPT),
        (u ''user_input_timeout_seconds'', JNum 15)]),
       put_session (KStr (u ''s1'')) new_session s0)"
proof -
  have a: "is_event ''user_input_timeout'' (KStr (u ''s1'')) (mk_event ''user_input_timeout'' ''s1'')"
    by (rule mk_event_is_event)
  have b: "event_session_id (mk_event ''user_input_timeout'' ''s1'') = Inr (JStr (u ''s1''))"
    by (rule mk_event_session_id)
  have c: "sessions (put_session (KStr (u ''s1'')) new_session s0) (KStr (u ''s1'')) = Some new_session"
    by (simp add: put_session_def)
  have d: "messages new_session = []"
    by (simp add: new_session_def)
  from timeout_without_messages [OF a b c d, of env0] a b c d show ?thesis
    by simp
qed

subsection \<open>Blank utterances\<close>

text \<open>
  C8. A sequence of \<open>user_speak\<close> events for one session whose texts are blank (empty or
  white space only, or the field is absent): every event returns no action, which
  \<open>do_POST\<close> answers with status 204; a \<open>messages\<close> list that was empty is empty
  afterwards; no notification is sent.
\<close>

theorem blank_user_speak:
  assumes "list_all (blank_speak k) evs" and "messages_of s k = []"
  shows "run_actions e s evs = Inr (replicate (length evs) None) \<and>
     run_messages e s evs k = Inr [] \<and> run_sent e s evs = Inr (sent s)"
proof -
  have "list_all (speak_event k) evs"
    using assms(1) by (simp add: list_all_iff blank_is_speak)
  from run_speak [OF this, of e s] blank_said [OF assms(1)] assms(2) show ?thesis
    by (auto simp: run_actions_def run_messages_def run_sent_def)
qed

theorem blank_user_speak_witness:
  "list_all (blank_speak (KStr (u ''s1'')))
     [mk_speak ''s1'' [], mk_speak ''s1'' ''   '',
      JObj [(u ''type'', JStr (u ''user_speak'')), (u ''session'', JObj [(u ''id'', JStr (u ''s1''))]),
            (u ''text'', JStr [32, 9, 160, 12288, 10])],
      mk_event ''user_speak'' ''s1''] \<and>
   messages_of s0 (KStr (u ''s1'')) = [] \<and>
   run_actions env0 s0
     [mk_speak ''s1'' [], mk_speak ''s1'' ''   '',
      JObj [(u ''type'', JStr (u ''user_speak'')), (u ''session'', JObj [(u ''id'', JStr (u ''s1''))]),
            (u ''text'', JStr [32, 9, 160, 12288, 10])],
      mk_event ''user_speak'' ''s1''] = Inr [None, None, None, None] \<and>
   run_messages env0 s0
     [mk_speak ''s1'' [], mk_speak ''s1'' ''   '',
      JObj [(u ''type'', JStr (u ''user_speak'')), (u ''session'', JObj [(u ''id'', JStr (u ''s1''))]),
            (u ''text'', JStr [32, 9, 160, 12288, 10])],
      mk_event ''user_speak'' ''s1''] (KStr (u ''s1'')) = Inr [] \<and>
   run_sent env0 s0
     [mk_speak ''s1'' [], mk_speak ''s1'' ''   '',
      JObj [(u ''type'', JStr (u ''user_speak'')), (u ''session'', JObj [(u ''id'', JStr (u ''s1''))]),
            (u ''text'', JStr [32, 9, 160, 12288, 10])],
      mk_event ''user_speak'' ''s1''] = Inr []"
proof -
  let ?evs = "[mk_speak ''s1'' [], mk_speak ''s1'' ''   '',
      JObj [(u ''type'', JStr (u ''user_speak'')), (u ''session'', JObj [(u ''id'', JStr (u ''s1''))]),
            (u ''text'', JStr [32, 9, 160, 12288, 10])],
      mk_event ''user_speak'' ''s1'']"
  have a: "list_all (blank_speak (KStr (u ''s1''))) ?evs"
    by (simp add: blank_speak_def is_event_def event_type_def event_key_def event_session_id_def
        event_text_def mk_speak_def mk_event_def py_isspace_def)
       (simp add: u_def py_isspace_def)
  have b: "messages_of s0 (KStr (u ''s1'')) = []"
    by (simp add: messages_of_def s0_def)
  from blank_user_speak [OF a b, of env0] a b show ?thesis
    by (simp add: s0_def)
qed

subsection \<open>The order of the messages\<close>

text \<open>
  C6, as amended. A sequence of \<open>user_speak\<close> events for one session, each with a \<open>str\<close>
  without a surrogate code point as its text (so that the log line of the event can be
  printed): \<open>messages\<close> is extended by the texts with the white space at both ends
  removed, in arrival order, without those that are empty after that, nothing dropped as
  a duplicate. The notification sent by a following
  \<open>user_input_timeout\<close> (when the list is not empty) or by a following \<open>session_end\<close>,
  for a session not yet thanked, carries exactly that list.
\<close>

theorem user_speak_messages:
  assumes "list_all (speak_event k) evs" and "\<not> thanked_in s k"
    and "is_event ''user_input_timeout'' k tmo" and "is_event ''session_end'' k fin"
  shows "run_messages e s evs k = Inr (messages_of s k @ said evs) \<and>
     (messages_of s k @ said evs \<noteq> [] \<longrightarrow>
        run_sent e s (evs @ [tmo]) = Inr (sent s @
          [\<lparr>n_caller = caller_of s k, n_messages = messages_of s k @ said evs,
            n_msg_text = msg_text (messages_of s k @ said evs)\<rparr>])) \<and>
     run_sent e s (evs @ [fin]) = Inr (sent s @
       [\<lparr>n_caller = caller_of s k, n_messages = messages_of s k @ said evs,
         n_msg_text = msg_text (messages_of s k @ said evs)\<rparr>])"
proof -
  from run_speak [OF assms(1), of e s] obtain s1 where
    r: "run e s evs = Inr (replicate (length evs) None, s1)"
    and m: "messages_of s1 k = messages_of s k @ said evs"
    and n: "sent s1 = sent s"
    and t: "thanked_in s1 k = thanked_in s k"
    and c: "caller_of s1 k = caller_of s k"
    by blast
  have 1: "run_messages e s evs k = Inr (messages_of s k @ said evs)"
    by (simp add: run_messages_def r m)
  from assms(3) obtain sid where sid: "event_session_id tmo = Inr sid"
    by (rule is_eventD)
  have 2: "run_sent e s (evs @ [tmo]) = Inr (sent s @
          [\<lparr>n_caller = caller_of s k, n_messages = messages_of s k @ said evs,
            n_msg_text = msg_text (messages_of s k @ said evs)\<rparr>])"
    if "messages_of s k @ said evs \<noteq> []"
    using that assms(2) he_timeout [OF assms(3) sid, of e s1]
    by (simp add: run_sent_def run_append r m n t c Let_def)
  have 3: "run_sent e s (evs @ [fin]) = Inr (sent s @
       [\<lparr>n_caller = caller_of s k, n_messages = messages_of s k @ said evs,
         n_msg_text = msg_text (messages_of s k @ said evs)\<rparr>])"
    using assms(2) he_end [OF assms(4), of e s1]
    by (simp add: run_sent_def run_append r m n t c)
  from 1 2 3 show ?thesis by blast
qed

theorem user_speak_messages_witness:
  "list_all (speak_event (KStr (u ''s1''))) [mk_speak ''s1'' ''A'', mk_speak ''s1'' ''B'', mk_speak ''s1'' ''C''] \<and>
   \<not> thanked_in s0 (KStr (u ''s1'')) \<and>
   is_event ''user_input_timeout'' (KStr (u ''s1'')) (mk_event ''user_input_timeout'' ''s1'') \<and>
   is_event ''session_end'' (KStr (u ''s1'')) (mk_event ''session_end'' ''s1'') \<and>
   messages_of s0 (KStr (u ''s1'')) @
     said [mk_speak ''s1'' ''A'', mk_speak ''s1'' ''B'', mk_speak ''s1'' ''C''] \<noteq> [] \<and>
   run_messages env0 s0 [mk_speak ''s1'' ''A'', mk_speak ''s1'' ''B'', mk_speak ''s1'' ''C'']
     (KStr (u ''s1'')) = Inr [u ''A'', u ''B'', u ''C''] \<and>
   run_sent env0 s0
     ([mk_speak ''s1'' ''A'', mk_speak ''s1'' ''B'', mk_speak ''s1'' ''C''] @
      [mk_event ''user_input_timeout'' ''s1'']) =
     Inr [\<lparr>n_caller = JStr (u ''unbekannt''), n_messages = [u ''A'', u ''B'', u ''C''],
            n_msg_text = u ''  > A'' @ [10] @ u ''  > B'' @ [10] @ u ''  > C''\<rparr>] \<and>
   run_sent env0 s0
     ([mk_speak ''s1'' ''A'', mk_speak ''s1'' ''B'', mk_speak ''s1'' ''C''] @
      [mk_event ''session_end'' ''s1'']) =
     Inr [\<lparr>n_caller = JStr (u ''unbekannt''), n_messages = [u ''A'', u ''B'', u ''C''],
            n_msg_text = u ''  > A'' @ [10] @ u ''  > B'' @ [10] @ u ''  > C''\<rparr>]"
proof -
  let ?k = "KStr (u ''s1'')"
  let ?evs = "[mk_speak ''s1'' ''A'', mk_speak ''s1'' ''B'', mk_speak ''s1'' ''C'']"
  have p: "utf8_encodable (strip (u ''A''))" "utf8_encodable (strip (u ''B''))"
    "utf8_encodable (strip (u ''C''))"
    by (simp_all add: strip_def u_def py_isspace_def utf8_encodable_def)
  have a: "list_all (speak_event ?k) ?evs"
    by (simp add: speak_event_def mk_speak_is_event mk_speak_text p)
  have b: "\<not> thanked_in s0 ?k"
    by (simp add: thanked_in_def s0_def)
  have c: "is_event ''user_input_timeout'' ?k (mk_event ''user_input_timeout'' ''s1'')"
    by (rule mk_event_is_event)
  have d: "is_event ''session_end'' ?k (mk_event ''session_end'' ''s1'')"
    by (rule mk_event_is_event)
  have m: "messages_of s0 ?k = []" and n: "sent s0 = []" and cl: "caller_of s0 ?k = JStr (u ''unbekannt'')"
    by (simp_all add: messages_of_def caller_of_def s0_def unbekannt_def)
  have sd: "said ?evs = [u ''A'', u ''B'', u ''C'']"
    by (simp add: said_def mk_speak_text strip_def u_def py_isspace_def)
  have mt: "msg_text [u ''A'', u ''B'', u ''C''] = u ''  > A'' @ [10] @ u ''  > B'' @ [10] @ u ''  > C''"
    by (simp add: msg_text_def u_def)
  from user_speak_messages [OF a b c d, of env0] a b c d show ?thesis
    unfolding m n cl sd by (simp add: mt)
qed

theorem user_speak_text_is_stripped:
  "run_messages env0 s0 [mk_speak ''s1'' '' A''] (KStr (u ''s1'')) = Inr [u ''A''] \<and>
   run_messages env0 s0 [mk_speak ''s1'' '' A''] (KStr (u ''s1'')) \<noteq> Inr [u '' A'']"
  by (simp add: run_simps)


text \<open>
  C2, as amended. Over any sequence of events that holds no \<open>session_start\<close> and no
  \<open>session_end\<close> for the session (the first replaces the record by a fresh one, the
  second removes it), the \<open>thanked\<close> flag of the session, read after each event, never
  goes from true back to false: the sequence of its values is sorted, so it goes from
  false to true at most once. Events of other sessions and events whose handler raises
  are included.
\<close>

theorem thanked_is_monotone:
  assumes "same_record k evs"
  shows "sorted (thanked_trace e s evs k)"
  unfolding thanked_trace_def by (rule sorted_thanked [OF assms])

theorem thanked_is_monotone_witness:
  "same_record (KStr (u ''s1''))
     [mk_speak ''s1'' ''A'', mk_event ''user_input_timeout'' ''s1'',
      mk_event ''user_input_timeout'' ''s1'', mk_event ''session_end'' ''s2'',
      mk_event ''assistant_speech_ended'' ''s1''] \<and>
   sorted (thanked_trace env0 s0
     [mk_speak ''s1'' ''A'', mk_event ''user_input_timeout'' ''s1'',
      mk_event ''user_input_timeout'' ''s1'', mk_event ''session_end'' ''s2'',
      mk_event ''assistant_speech_ended'' ''s1''] (KStr (u ''s1''))) \<and>
   thanked_trace env0 s0
     [mk_speak ''s1'' ''A'', mk_event ''user_input_timeout'' ''s1'',
      mk_event ''user_input_timeout'' ''s1'', mk_event ''session_end'' ''s2'',
      mk_event ''assistant_speech_ended'' ''s1''] (KStr (u ''s1'')) =
     [False, False, True, True, True, True]"
proof -
  let ?evs = "[mk_speak ''s1'' ''A'', mk_event ''user_input_timeout'' ''s1'',
      mk_event ''user_input_timeout'' ''s1'', mk_event ''session_end'' ''s2'',
      mk_event ''assistant_speech_ended'' ''s1'']"
  have a: "same_record (KStr (u ''s1'')) ?evs"
    by (simp add: same_record_def mk_event_not mk_speak_not mk_event_other_key)
  have b: "thanked_trace env0 s0 ?evs (KStr (u ''s1'')) = [False, False, True, True, True, True]"
    by (simp add: run_simps)
  from thanked_is_monotone [OF a, of env0 s0] a b show ?thesis
    by (simp only: simp_thms)
qed

theorem session_start_resets_thanked:
  "thanked_trace env0 s0
     [mk_start ''s1'' ''+49'', mk_speak ''s1'' ''A'', mk_event ''user_input_timeout'' ''s1'',
      mk_start ''s1'' ''+49''] (KStr (u ''s1'')) = [False, False, False, True, False]"
  by (simp add: run_simps)

text \<open>
  C4, as amended. Over any sequence of events that holds no \<open>session_start\<close> and no
  \<open>session_end\<close> for the session, the \<open>beeped\<close> flag never goes from true back to false
  (so it is set at most once). With a non-empty audio blob loaded, two consecutive
  \<open>assistant_speech_ended\<close> events for a session that has a record in the store whose
  \<open>beeped\<close> is not yet set: the first returns the \<open>audio\<close> action and sets the flag, the
  second returns no action.
\<close>

theorem beep_once:
  "(same_record k evs \<longrightarrow> sorted (beeped_trace e s evs k)) \<and>
   (is_event ''assistant_speech_ended'' k eva \<and> event_session_id eva = Inr sid \<and>
    is_event ''assistant_speech_ended'' k evb \<and> sessions s k = Some d \<and> \<not> flag (beeped d) \<and>
    BEEP_AUDIO e = Some audio \<and> audio \<noteq> [] \<longrightarrow>
      run_actions e s [eva, evb] =
        Inr [Some (JObj [(u ''type'', JStr (u ''audio'')), (u ''session_id'', sid),
                         (u ''audio'', JStr audio)]), None] \<and>
      beeped_trace e s [eva, evb] k = [False, True, True])"
proof (intro conjI impI)
  assume "same_record k evs"
  then show "sorted (beeped_trace e s evs k)"
    unfolding beeped_trace_def by (rule sorted_beeped)
next
  assume h: "is_event ''assistant_speech_ended'' k eva \<and> event_session_id eva = Inr sid \<and>
    is_event ''assistant_speech_ended'' k evb \<and> sessions s k = Some d \<and> \<not> flag (beeped d) \<and>
    BEEP_AUDIO e = Some audio \<and> audio \<noteq> []"
  from h obtain sid2 where sid2: "event_session_id evb = Inr sid2"
    by (auto elim: is_eventD)
  let ?s1 = "put_session k (d\<lparr>beeped := Some True\<rparr>) s"
  have nb: "\<not> beeped_in s k"
    using h by (simp add: beeped_in_def)
  have 1: "handle_event e s eva = Inr (Some (audio_action sid audio), ?s1)"
    using h nb he_ase [of k eva sid e s] by simp
  have yb: "beeped_in ?s1 k"
    by (simp add: flag_def)
  have 2: "handle_event e ?s1 evb = Inr (None, ?s1)"
    using h yb sid2 he_ase [of k evb sid2 e ?s1] by simp
  show "run_actions e s [eva, evb] =
        Inr [Some (JObj [(u ''type'', JStr (u ''audio'')), (u ''session_id'', sid),
                         (u ''audio'', JStr audio)]), None]"
    by (simp add: run_actions_def 1 2 audio_action_def)
  show "beeped_trace e s [eva, evb] k = [False, True, True]"
    using nb yb by (simp add: beeped_trace_def step_def 1 2)
qed

theorem beep_once_witness:
  "same_record (KStr (u ''s1''))
     [mk_event ''assistant_speech_ended'' ''s1'', mk_speak ''s1'' ''A'',
      mk_event ''assistant_speech_ended'' ''s1''] \<and>
   sorted (beeped_trace env0 (put_session (KStr (u ''s1'')) new_session s0)
     [mk_event ''assistant_speech_ended'' ''s1'', mk_speak ''s1'' ''A'',
      mk_event ''assistant_speech_ended'' ''s1''] (KStr (u ''s1''))) \<and>
   is_event ''assistant_speech_ended'' (KStr (u ''s1'')) (mk_event ''assistant_speech_ended'' ''s1'') \<and>
   event_session_id (mk_event ''assistant_speech_ended'' ''s1'') = Inr (JStr (u ''s1'')) \<and>
   sessions (put_session (KStr (u ''s1'')) new_session s0) (KStr (u ''s1'')) = Some new_session \<and>
   \<not> flag (beeped new_session) \<and>
   BEEP_AUDIO env0 = Some (u ''UklGRg=='') \<and> u ''UklGRg=='' \<noteq> [] \<and>
   run_actions env0 (put_session (KStr (u ''s1'')) new_session s0)
     [mk_event ''assistant_speech_ended'' ''s1'', mk_event ''assistant_speech_ended'' ''s1''] =
     Inr [Some (JObj [(u ''type'', JStr (u ''audio'')), (u ''session_id'', JStr (u ''s1'')),
                      (u ''audio'', JStr (u ''UklGRg==''))]), None] \<and>
   beeped_trace env0 (put_session (KStr (u ''s1'')) new_session s0)
     [mk_event ''assistant_speech_ended'' ''s1'', mk_event ''assistant_speech_ended'' ''s1'']
     (KStr (u ''s1'')) = [False, True, True]"
proof -
  let ?k = "KStr (u ''s1'')"
  let ?ase = "mk_event ''assistant_speech_ended'' ''s1''"
  let ?evs = "[?ase, mk_speak ''s1'' ''A'', ?ase]"
  let ?s = "put_session ?k new_session s0"
  have a: "same_record ?k ?evs"
    by (simp add: same_record_def mk_event_not mk_speak_not)
  have b: "is_event ''assistant_speech_ended'' ?k ?ase"
    by (rule mk_event_is_event)
  have c: "event_session_id ?ase = Inr (JStr (u ''s1''))"
    by (rule mk_event_session_id)
  have d: "sessions ?s ?k = Some new_session"
    by simp
  have f: "\<not> flag (beeped new_session)"
    by (simp add: new_session_def flag_def)
  have g: "BEEP_AUDIO env0 = Some (u ''UklGRg=='')"
    by (simp add: env0_def)
  have h: "u ''UklGRg=='' \<noteq> []"
    by (simp add: u_def)
  note th = beep_once [where k = ?k and evs = ?evs and e = env0 and s = ?s and eva = ?ase
      and sid = "JStr (u ''s1'')" and evb = ?ase and d = new_session and audio = "u ''UklGRg==''"]
  from th a have 1: "sorted (beeped_trace env0 ?s ?evs ?k)"
    by blast
  from th b c d f g h have 2: "run_actions env0 ?s [?ase, ?ase] =
     Inr [Some (JObj [(u ''type'', JStr (u ''audio'')), (u ''session_id'', JStr (u ''s1'')),
                      (u ''audio'', JStr (u ''UklGRg==''))]), None] \<and>
     beeped_trace env0 ?s [?ase, ?ase] ?k = [False, True, True]"
    by blast
  from a 1 b c d f g h 2 show ?thesis
    by (simp only: simp_thms)
qed

theorem beep_repeats:
  "beeped_trace env0 s0
     [mk_start ''s1'' ''+49'', mk_event ''assistant_speech_ended'' ''s1'',
      mk_start ''s1'' ''+49'', mk_event ''assistant_speech_ended'' ''s1''] (KStr (u ''s1'')) =
     [False, False, True, False, True] \<and>
   run_actions env0 s0
     [mk_event ''assistant_speech_ended'' ''s1'', mk_event ''assistant_speech_ended'' ''s1''] =
     Inr [Some (JObj [(u ''type'', JStr (u ''audio'')), (u ''session_id'', JStr (u ''s1'')),
                      (u ''audio'', JStr (u ''UklGRg==''))]),
          Some (JObj [(u ''type'', JStr (u ''audio'')), (u ''session_id'', JStr (u ''s1'')),
                      (u ''audio'', JStr (u ''UklGRg==''))])]"
  by (simp add: run_simps)

subsection \<open>Events with missing fields\<close>














subsection \<open>Records created by an event\<close>

lemma run_callers_one:
  assumes "handle_event e s ev = Inr (a, s1)"
  shows "run_callers e s [ev] k = Inr (map_option caller (sessions s1 k))"
  using assms by (simp add: run_callers_def)

lemma stored_None: "sessions s k = None \<Longrightarrow> stored s k = new_session"
  by (simp add: stored_def)

text \<open>
  C3, as amended. An event whose session id is hashable (a string, number, boolean or
  null) and has no record in the store: a \<open>user_speak\<close> whose text is a string without a
  surrogate code point (or is absent) and a \<open>user_input_timeout\<close> create a record for
  the id with the caller \<open>"unbekannt"\<close>; a \<open>session_start\<close> whose caller and direction
  can be printed (neither is a string with a surrogate) creates one with the caller of
  the payload, \<open>"unbekannt"\<close> when the field is missing; an event of any other type
  returns normally and creates no record.
\<close>

theorem record_creation:
  assumes "event_type ev = Inr t" and "event_key ev = Inr k" and "sessions s k = None"
    and "t = JStr (u ''user_speak'') \<longrightarrow> speak_event k ev"
    and "t = JStr (u ''session_start'') \<longrightarrow> start_logged ev"
  shows "\<exists>c. event_from ev = Inr c \<and>
     run_callers e s [ev] k = Inr
       (if t = JStr (u ''session_start'') then Some c
        else if t = JStr (u ''user_speak'') \<or> t = JStr (u ''user_input_timeout'')
          then Some (JStr (u ''unbekannt''))
        else None)"
proof -
  from assms(2) obtain sid where sid: "event_session_id ev = Inr sid"
    and k: "dict_key sid = Inr k"
    by (auto simp: event_key_def bnd_eq_Inr)
  from handle_event_branch [OF assms(1) sid, of e s] obtain c0 where c0: "event_from ev = Inr c0"
    by blast
  have ev: "is_event n k ev" if "t = JStr (u n)" for n
    using that assms(1,2) by (simp add: is_event_def)
  have new: "stored s k = new_session"
    by (rule stored_None [OF assms(3)])
  show ?thesis
  proof (cases "t \<in> known_types")
    case False
    from he_other [OF assms(1) sid this, of e s]
    have "run_callers e s [ev] k = Inr None"
      by (simp add: run_callers_def assms(3))
    with False c0 show ?thesis
      by (auto simp: known_types_def)
  next
    case True
    then consider (start) "t = JStr (u ''session_start'')"
      | (speak) "t = JStr (u ''user_speak'')"
      | (timeout) "t = JStr (u ''user_input_timeout'')"
      | (fin) "t = JStr (u ''session_end'')"
      | (ase) "t = JStr (u ''assistant_speech_ended'')"
      by (auto simp: known_types_def)
    then show ?thesis
    proof cases
      case start
      with assms(5) have "start_logged ev" by blast
      from he_start [OF ev [OF start] this, of e s] obtain sid' c where
        c: "event_from ev = Inr c"
        and h: "handle_event e s ev = Inr (Some (greeting_action sid'),
          put_session k \<lparr>caller = c, messages = [], beeped = Some False, thanked = None\<rparr> s)"
        by blast
      from run_callers_one [OF h, of k] c start show ?thesis
        by simp
    next
      case speak
      with assms(4) obtain tx where tx: "event_text ev = Some tx"
        and p: "utf8_encodable (strip tx)"
        by (auto simp: speak_event_def split: option.splits)
      have "run_callers e s [ev] k = Inr (Some unbekannt)"
        by (simp add: run_callers_def he_speak [OF ev [OF speak] tx p] new new_session_def)
      with speak c0 show ?thesis
        by (simp add: unbekannt_def)
    next
      case timeout
      have "handle_event e s ev = Inr (Some (reprompt_action sid), ensure_session k s)"
        using he_timeout [OF ev [OF timeout] sid, of e s] assms(3)
        by (simp add: Let_def messages_of_def)
      from run_callers_one [OF this, of k] timeout c0 show ?thesis
        by (simp add: new new_session_def unbekannt_def)
    next
      case fin
      have "run_callers e s [ev] k = Inr None"
        by (simp add: run_callers_def he_end [OF ev [OF fin]])
      with fin c0 show ?thesis by simp
    next
      case ase
      have "\<exists>a. handle_event e s ev = Inr (a, s)"
        using he_ase [OF ev [OF ase] sid, of e s] assms(3)
        by (simp split: option.splits)
      then obtain a where "handle_event e s ev = Inr (a, s)" ..
      from run_callers_one [OF this, of k] ase c0 assms(3) show ?thesis
        by simp
    qed
  qed
qed

theorem record_creation_witness:
  "event_type (mk_speak ''s1'' ''Hallo'') = Inr (JStr (u ''user_speak'')) \<and>
   event_key (mk_speak ''s1'' ''Hallo'') = Inr (KStr (u ''s1'')) \<and>
   sessions s0 (KStr (u ''s1'')) = None \<and>
   speak_event (KStr (u ''s1'')) (mk_speak ''s1'' ''Hallo'') \<and>
   JStr (u ''user_speak'') \<noteq> JStr (u ''session_start'') \<and>
   (\<exists>c. event_from (mk_speak ''s1'' ''Hallo'') = Inr c \<and>
     run_callers env0 s0 [mk_speak ''s1'' ''Hallo''] (KStr (u ''s1'')) =
       Inr (Some (JStr (u ''unbekannt''))))"
proof -
  let ?ev = "mk_speak ''s1'' ''Hallo''"
  have a: "event_type ?ev = Inr (JStr (u ''user_speak''))"
    by (simp add: event_type_def mk_speak_def)
  have b: "event_key ?ev = Inr (KStr (u ''s1''))"
    by (simp add: event_key_def event_session_id_def mk_speak_def)
  have c: "sessions s0 (KStr (u ''s1'')) = None"
    by (simp add: s0_def)
  have p: "utf8_encodable (strip (u ''Hallo''))"
    by (simp add: strip_def u_def py_isspace_def utf8_encodable_def)
  have d: "speak_event (KStr (u ''s1'')) ?ev"
    by (simp add: speak_event_def mk_speak_is_event mk_speak_text p)
  have f: "JStr (u ''user_speak'') \<noteq> JStr (u ''session_start'')"
    by simp
  from d have d': "JStr (u ''user_speak'') = JStr (u ''user_speak'') \<longrightarrow> speak_event (KStr (u ''s1'')) ?ev"
    by blast
  from f have f': "JStr (u ''user_speak'') = JStr (u ''session_start'') \<longrightarrow> start_logged ?ev"
    by blast
  from record_creation [OF a b c d' f', of env0] a b c d f show ?thesis
    by simp
qed

theorem no_record_for_other_events:
  "run_callers env0 s0 [mk_event ''assistant_speech_ended'' ''s1''] (KStr (u ''s1'')) = Inr None \<and>
   run_callers env0 s0 [mk_event ''session_end'' ''s1''] (KStr (u ''s1'')) = Inr None \<and>
   run_callers env0 s0 [mk_event ''assistant_speak'' ''s1''] (KStr (u ''s1'')) = Inr None"
  by (simp add: run_simps)

subsection \<open>The responses of do_POST\<close>








end
